theory Spec2Isabelle
  imports Complex_Main "HOL-Library.Word" "HOL-Library.Log_Nat" "HOL-Library.Sublist"
begin

section \<open>Data model\<close>

text \<open>
  \<^verbatim>\<open>export type FilterType = "normal" | "bw" | "soft" | "vintage";\<close> (Camera) and
  \<^verbatim>\<open>export type LayoutType = "4-diagonal" | "3-diagonal" | "4-square" | "6-grid";\<close>
  (LayoutSelector.tsx).
\<close>

datatype FilterType = Normal | BW | Soft | Vintage

datatype LayoutType = Layout4Diagonal | Layout3Diagonal | Layout4Square | Layout6Grid

text \<open>A burst is a \<^verbatim>\<open>string[]\<close> of data URLs; the Photo Set is a \<^verbatim>\<open>string[][]\<close>.\<close>

type_synonym burst = "string list"

section \<open>JavaScript numbers\<close>

text \<open>
  A JavaScript \<^verbatim>\<open>number\<close> is an IEEE-754 double: a finite value (a rational that the
  format represents), an infinity or NaN. Every arithmetic operation computes the exact
  result and rounds it to the nearest double, ties to even, with 53 bits of precision,
  subnormals below \<open>2 ^ -1022\<close> and overflow to infinity from \<open>2 ^ 1024\<close> on.
  The sign of zero is not kept: no operation of the code below tells the two zeros apart
  (its only division has a divisor \<^verbatim>\<open>255 * (259 - x)\<close>, which is never \<open>-0\<close>, and
  every result is stored as a byte or compared).
\<close>

datatype double = Fin rat | PInf | NInf | NaN

definition pow2 :: "int \<Rightarrow> rat" where
  "pow2 k = (if 0 \<le> k then 2 ^ nat k else 1 / 2 ^ nat (- k))"

definition round_half_even :: "rat \<Rightarrow> int" where
  "round_half_even q =
     (let f = \<lfloor>q\<rfloor>; d = q - of_int f
      in if d < 1 / 2 then f else if 1 / 2 < d then f + 1 else if even f then f else f + 1)"

definition ilog2 :: "rat \<Rightarrow> int" where
  "ilog2 q = (if 1 \<le> q then bitlen \<lfloor>q\<rfloor> - 1 else - bitlen (\<lceil>1 / q\<rceil> - 1))"

definition round_double :: "rat \<Rightarrow> double" where
  "round_double q =
     (if q = 0 then Fin 0
      else let e = max (ilog2 \<bar>q\<bar>) (- 1022);
               m = round_half_even (\<bar>q\<bar> / pow2 (e - 52))
           in if 1024 \<le> e \<or> (e = 1023 \<and> m = 9007199254740992)
              then (if 0 < q then PInf else NInf)
              else Fin (sgn q * of_int m * pow2 (e - 52)))"

text \<open>
  A decimal literal of the source: \<open>decimal 299 3\<close> is \<^verbatim>\<open>0.299\<close>, the double nearest
  to 299 / 1000.
\<close>

definition decimal :: "int \<Rightarrow> nat \<Rightarrow> double" where
  "decimal m k = round_double (of_int m / 10 ^ k)"

definition inf_of_sign :: "rat \<Rightarrow> double" where
  "inf_of_sign s = (if 0 < s then PInf else if s < 0 then NInf else NaN)"

fun dsign :: "double \<Rightarrow> rat" where
  "dsign (Fin a) = sgn a"
| "dsign PInf = 1"
| "dsign NInf = - 1"
| "dsign NaN = 0"

fun fneg :: "double \<Rightarrow> double" where
  "fneg (Fin a) = Fin (- a)"
| "fneg PInf = NInf"
| "fneg NInf = PInf"
| "fneg NaN = NaN"

fun fadd :: "double \<Rightarrow> double \<Rightarrow> double" where
  "fadd (Fin a) (Fin b) = round_double (a + b)"
| "fadd NaN _ = NaN"
| "fadd _ NaN = NaN"
| "fadd PInf NInf = NaN"
| "fadd NInf PInf = NaN"
| "fadd PInf _ = PInf"
| "fadd _ PInf = PInf"
| "fadd NInf _ = NInf"
| "fadd _ NInf = NInf"

definition fsub :: "double \<Rightarrow> double \<Rightarrow> double" where
  "fsub a b = fadd a (fneg b)"

fun fmul :: "double \<Rightarrow> double \<Rightarrow> double" where
  "fmul (Fin a) (Fin b) = round_double (a * b)"
| "fmul NaN _ = NaN"
| "fmul _ NaN = NaN"
| "fmul a b = inf_of_sign (dsign a * dsign b)"

fun fdiv :: "double \<Rightarrow> double \<Rightarrow> double" where
  "fdiv (Fin a) (Fin b) = (if b = 0 then inf_of_sign (sgn a) else round_double (a / b))"
| "fdiv NaN _ = NaN"
| "fdiv _ NaN = NaN"
| "fdiv (Fin a) _ = Fin 0"
| "fdiv a (Fin b) = inf_of_sign (dsign a * (if b < 0 then - 1 else 1))"
| "fdiv _ _ = NaN"

fun Math_min :: "double \<Rightarrow> double \<Rightarrow> double" where
  "Math_min (Fin a) (Fin b) = Fin (min a b)"
| "Math_min NaN _ = NaN"
| "Math_min _ NaN = NaN"
| "Math_min NInf _ = NInf"
| "Math_min _ NInf = NInf"
| "Math_min PInf b = b"
| "Math_min a PInf = a"

fun Math_max :: "double \<Rightarrow> double \<Rightarrow> double" where
  "Math_max (Fin a) (Fin b) = Fin (max a b)"
| "Math_max NaN _ = NaN"
| "Math_max _ NaN = NaN"
| "Math_max PInf _ = PInf"
| "Math_max _ PInf = PInf"
| "Math_max NInf b = b"
| "Math_max a NInf = a"

text \<open>
  The elements of a \<^verbatim>\<open>Uint8ClampedArray\<close> are bytes. Reading one gives its value as a
  number; storing a number converts it with ToUint8Clamp: NaN becomes 0, the value is
  clamped to \<open>[0, 255]\<close> and rounded to the nearest integer, ties to even.
\<close>

type_synonym byte = "8 word"

definition num :: "byte \<Rightarrow> double" where
  "num w = Fin (of_nat (unat w))"

fun ToUint8Clamp :: "double \<Rightarrow> byte" where
  "ToUint8Clamp (Fin q) = (if q \<le> 0 then 0 else if 255 \<le> q then 255 else word_of_int (round_half_even q))"
| "ToUint8Clamp PInf = 255"
| "ToUint8Clamp NInf = 0"
| "ToUint8Clamp NaN = 0"

section \<open>JavaScript strings\<close>

text \<open>
  \<^verbatim>\<open>String.prototype.includes\<close>, \<^verbatim>\<open>startsWith\<close>, the regular expressions
  \<^verbatim>\<open>/name\(([^)]+)\)/\<close> of the filter code (the first position where \<^verbatim>\<open>name(\<close> is
  followed by one or more characters other than \<^verbatim>\<open>)\<close> and then by \<^verbatim>\<open>)\<close>; the
  result is the captured group) and \<^verbatim>\<open>parseFloat\<close> (leading white space, then the
  longest prefix that is a StrDecimalLiteral; NaN when there is none). A string is a list
  of 8-bit characters.
\<close>

definition includes_str :: "string \<Rightarrow> string \<Rightarrow> bool" where
  "includes_str s searchString = (\<exists>k \<in> set [0..<Suc (length s)]. prefix searchString (drop k s))"

definition startsWith :: "string \<Rightarrow> string \<Rightarrow> bool" where
  "startsWith s searchString = prefix searchString s"

definition match_at :: "string \<Rightarrow> string \<Rightarrow> string option" where
  "match_at name s =
     (if prefix (name @ ''('') s
      then let rest = drop (length name + 1) s;
               arg = takeWhile (\<lambda>c. c \<noteq> CHR '')'') rest
           in if arg \<noteq> [] \<and> dropWhile (\<lambda>c. c \<noteq> CHR '')'') rest \<noteq> [] then Some arg else None
      else None)"

fun match_call :: "string \<Rightarrow> string \<Rightarrow> string option" where
  "match_call name [] = match_at name []"
| "match_call name (c # cs) =
     (case match_at name (c # cs) of Some arg \<Rightarrow> Some arg | None \<Rightarrow> match_call name cs)"

definition is_digit :: "char \<Rightarrow> bool" where
  "is_digit c = (48 \<le> (of_char c :: nat) \<and> (of_char c :: nat) \<le> 57)"

definition digits_value :: "string \<Rightarrow> nat" where
  "digits_value ds = foldl (\<lambda>n c. 10 * n + (of_char c - 48)) 0 ds"

definition is_space :: "char \<Rightarrow> bool" where
  "is_space c = ((of_char c :: nat) \<in> {9, 10, 11, 12, 13, 32, 160})"

definition pow10 :: "int \<Rightarrow> rat" where
  "pow10 k = (if 0 \<le> k then 10 ^ nat k else 1 / 10 ^ nat (- k))"

definition exponent_part :: "string \<Rightarrow> int" where
  "exponent_part s =
     (case s of
        [] \<Rightarrow> 0
      | c # r \<Rightarrow>
          if c = CHR ''e'' \<or> c = CHR ''E''
          then (case r of
                  [] \<Rightarrow> 0
                | d # t \<Rightarrow>
                    if d = CHR ''-'' then - int (digits_value (takeWhile is_digit t))
                    else if d = CHR ''+'' then int (digits_value (takeWhile is_digit t))
                    else int (digits_value (takeWhile is_digit r)))
          else 0)"

definition unsigned_literal :: "string \<Rightarrow> double" where
  "unsigned_literal s =
     (if prefix ''Infinity'' s then PInf
      else let ip = takeWhile is_digit s; r1 = dropWhile is_digit s
           in (case r1 of
                 [] \<Rightarrow> if ip = [] then NaN else round_double (of_nat (digits_value ip))
               | c # r2 \<Rightarrow>
                   if c = CHR ''.''
                   then (let fp = takeWhile is_digit r2; r3 = dropWhile is_digit r2
                         in if ip = [] \<and> fp = [] then NaN
                            else round_double (of_nat (digits_value (ip @ fp)) / 10 ^ length fp
                                               * pow10 (exponent_part r3)))
                   else if ip = [] then NaN
                   else round_double (of_nat (digits_value ip) * pow10 (exponent_part r1))))"

definition parseFloat :: "string \<Rightarrow> double" where
  "parseFloat s =
     (case dropWhile is_space s of
        [] \<Rightarrow> NaN
      | c # r \<Rightarrow>
          if c = CHR ''-'' then fneg (unsigned_literal r)
          else if c = CHR ''+'' then unsigned_literal r
          else unsigned_literal (c # r))"

section \<open>The Filter Function (PhotoEditor.tsx, \<^verbatim>\<open>getFilterStyle\<close> and \<^verbatim>\<open>applyFilterToCanvas\<close>)\<close>

text \<open>
  The pixel buffer of a canvas (\<^verbatim>\<open>ImageData.data\<close>) holds four bytes per pixel, red,
  green, blue and alpha: it is a list of such quadruples, and a loop
  \<^verbatim>\<open>for (let i = 0; i < data.length; i += 4)\<close> is a \<open>map\<close> over the pixels.
  \<^verbatim>\<open>applyFilterToCanvas\<close> changes the canvas it is given in place, so canvases live in a
  heap, addressed by a number. \<^verbatim>\<open>getImageData\<close> throws an IndexSizeError for a canvas
  without pixels and a SecurityError for one that is not origin-clean.
\<close>

type_synonym pixel = "byte \<times> byte \<times> byte \<times> byte"

record canvas =
  width :: nat
  height :: nat
  context2d :: bool
  origin_clean :: bool
  data :: "pixel list"

datatype DOMException = IndexSizeError | SecurityError

type_synonym heap = "nat \<Rightarrow> canvas"

definition getFilterStyle :: "FilterType \<Rightarrow> string option" where
  "getFilterStyle f =
     (case f of
        BW \<Rightarrow> Some ''grayscale(100%) contrast(1.2)''
      | Soft \<Rightarrow> Some ''brightness(1.1) contrast(0.9) saturate(0.8) blur(0.5px)''
      | Vintage \<Rightarrow> Some ''sepia(0.5) contrast(1.1) saturate(0.8)''
      | Normal \<Rightarrow> None)"

definition filterValue :: "FilterType \<Rightarrow> string" where
  "filterValue f = (case getFilterStyle f of None \<Rightarrow> [] | Some s \<Rightarrow> s)"

definition luminance :: "byte \<Rightarrow> byte \<Rightarrow> byte \<Rightarrow> double" where
  "luminance r g b =
     fadd (fadd (fmul (num r) (decimal 299 3)) (fmul (num g) (decimal 587 3)))
          (fmul (num b) (decimal 114 3))"

definition grayscale_pixel :: "pixel \<Rightarrow> pixel" where
  "grayscale_pixel p =
     (case p of (r, g, b, a) \<Rightarrow>
        let gray = luminance r g b
        in (ToUint8Clamp gray, ToUint8Clamp gray, ToUint8Clamp gray, a))"

definition contrast_factor :: "double \<Rightarrow> double" where
  "contrast_factor contrastValue =
     fdiv (fmul (Fin 259) (fadd (fmul contrastValue (Fin 255)) (Fin 255)))
          (fmul (Fin 255) (fsub (Fin 259) (fmul contrastValue (Fin 255))))"

definition contrast_channel :: "double \<Rightarrow> byte \<Rightarrow> byte" where
  "contrast_channel factor c =
     ToUint8Clamp (Math_max (Fin 0) (Math_min (Fin 255) (fadd (fmul factor (fsub (num c) (Fin 128))) (Fin 128))))"

definition contrast_pixel :: "double \<Rightarrow> pixel \<Rightarrow> pixel" where
  "contrast_pixel factor p =
     (case p of (r, g, b, a) \<Rightarrow>
        (contrast_channel factor r, contrast_channel factor g, contrast_channel factor b, a))"

definition sepia_pixel :: "double \<Rightarrow> pixel \<Rightarrow> pixel" where
  "sepia_pixel sepiaValue p =
     (case p of (r, g, b, a) \<Rightarrow>
        (ToUint8Clamp (Math_min (Fin 255)
           (fadd (fadd (fmul (num r) (fsub (Fin 1) (fmul (decimal 607 3) sepiaValue)))
                       (fmul (fmul (num g) (decimal 769 3)) sepiaValue))
                 (fmul (fmul (num b) (decimal 189 3)) sepiaValue))),
         ToUint8Clamp (Math_min (Fin 255)
           (fadd (fadd (fmul (fmul (num r) (decimal 349 3)) sepiaValue)
                       (fmul (num g) (fsub (Fin 1) (fmul (decimal 314 3) sepiaValue))))
                 (fmul (fmul (num b) (decimal 168 3)) sepiaValue))),
         ToUint8Clamp (Math_min (Fin 255)
           (fadd (fadd (fmul (fmul (num r) (decimal 272 3)) sepiaValue)
                       (fmul (fmul (num g) (decimal 534 3)) sepiaValue))
                 (fmul (num b) (fsub (Fin 1) (fmul (decimal 869 3) sepiaValue))))),
         a))"

definition brightness_pixel :: "double \<Rightarrow> pixel \<Rightarrow> pixel" where
  "brightness_pixel brightnessValue p =
     (case p of (r, g, b, a) \<Rightarrow>
        (ToUint8Clamp (Math_min (Fin 255) (fmul (num r) brightnessValue)),
         ToUint8Clamp (Math_min (Fin 255) (fmul (num g) brightnessValue)),
         ToUint8Clamp (Math_min (Fin 255) (fmul (num b) brightnessValue)),
         a))"

definition saturate_pixel :: "double \<Rightarrow> pixel \<Rightarrow> pixel" where
  "saturate_pixel saturateValue p =
     (case p of (r, g, b, a) \<Rightarrow>
        let gray = luminance r g b
        in (ToUint8Clamp (Math_min (Fin 255) (fadd gray (fmul (fsub (num r) gray) saturateValue))),
            ToUint8Clamp (Math_min (Fin 255) (fadd gray (fmul (fsub (num g) gray) saturateValue))),
            ToUint8Clamp (Math_min (Fin 255) (fadd gray (fmul (fsub (num b) gray) saturateValue))),
            a))"

definition grayscale_stage :: "string \<Rightarrow> pixel list \<Rightarrow> pixel list" where
  "grayscale_stage fv d = (if includes_str fv ''grayscale'' then map grayscale_pixel d else d)"

definition contrast_stage :: "string \<Rightarrow> pixel list \<Rightarrow> pixel list" where
  "contrast_stage fv d =
     (if includes_str fv ''contrast''
      then (case match_call ''contrast'' fv of
              Some arg \<Rightarrow> map (contrast_pixel (contrast_factor (parseFloat arg))) d
            | None \<Rightarrow> d)
      else d)"

definition sepia_stage :: "string \<Rightarrow> pixel list \<Rightarrow> pixel list" where
  "sepia_stage fv d =
     (if includes_str fv ''sepia''
      then map (sepia_pixel (case match_call ''sepia'' fv of Some arg \<Rightarrow> parseFloat arg | None \<Rightarrow> Fin 1)) d
      else d)"

definition brightness_stage :: "string \<Rightarrow> pixel list \<Rightarrow> pixel list" where
  "brightness_stage fv d =
     (if includes_str fv ''brightness''
      then (case match_call ''brightness'' fv of
              Some arg \<Rightarrow> map (brightness_pixel (parseFloat arg)) d
            | None \<Rightarrow> d)
      else d)"

definition saturate_stage :: "string \<Rightarrow> pixel list \<Rightarrow> pixel list" where
  "saturate_stage fv d =
     (if includes_str fv ''saturate''
      then (case match_call ''saturate'' fv of
              Some arg \<Rightarrow> map (saturate_pixel (parseFloat arg)) d
            | None \<Rightarrow> d)
      else d)"

definition applyFilterToCanvas :: "heap \<Rightarrow> nat \<Rightarrow> string \<Rightarrow> DOMException + heap" where
  "applyFilterToCanvas h c fv =
     (if fv = [] then Inr h
      else if \<not> context2d (h c) then Inr h
      else if width (h c) = 0 \<or> height (h c) = 0 then Inl IndexSizeError
      else if \<not> origin_clean (h c) then Inl SecurityError
      else Inr (h(c := (h c)\<lparr>data :=
             saturate_stage fv (brightness_stage fv (sepia_stage fv
               (contrast_stage fv (grayscale_stage fv (data (h c))))))\<rparr>)))"

text \<open>
  The bw transform in the words of the spec: "luminance = 0.299R + 0.587G + 0.114B,
  replicated to R,G,B; contrast factor 1.2 applied after", with
  "factor = (259*(C*255+255)) / (255*(259-C*255)); output = clamp(factor*(in-128)+128, 0, 255)
  per channel". The arithmetic is that of JavaScript numbers, and a channel holds a
  byte, so every value written to a channel passes through ToUint8Clamp.
\<close>

definition spec_luminance :: "byte \<Rightarrow> byte \<Rightarrow> byte \<Rightarrow> double" where
  "spec_luminance R G B =
     fadd (fadd (fmul (decimal 299 3) (num R)) (fmul (decimal 587 3) (num G)))
          (fmul (decimal 114 3) (num B))"

definition spec_clamp :: "double \<Rightarrow> double \<Rightarrow> double \<Rightarrow> double" where
  "spec_clamp v lo hi = Math_max lo (Math_min hi v)"

definition spec_factor :: "double \<Rightarrow> double" where
  "spec_factor C =
     fdiv (fmul (Fin 259) (fadd (fmul C (Fin 255)) (Fin 255)))
          (fmul (Fin 255) (fsub (Fin 259) (fmul C (Fin 255))))"

definition spec_contrast :: "double \<Rightarrow> double \<Rightarrow> double" where
  "spec_contrast C v = spec_clamp (fadd (fmul (spec_factor C) (fsub v (Fin 128))) (Fin 128)) (Fin 0) (Fin 255)"

definition spec_bw_pixel :: "pixel \<Rightarrow> pixel" where
  "spec_bw_pixel p =
     (case p of (R, G, B, A) \<Rightarrow>
        let l = ToUint8Clamp (spec_luminance R G B);
            out = ToUint8Clamp (spec_contrast (decimal 12 1) (num l))
        in (out, out, out, A))"

text \<open>
  The Filter Function of a filter id, and the pixel buffer a call leaves in the canvas
  it was given (or the exception it throws).
\<close>

definition filterFunction :: "heap \<Rightarrow> nat \<Rightarrow> FilterType \<Rightarrow> DOMException + heap" where
  "filterFunction h c f = applyFilterToCanvas h c (filterValue f)"

definition output_buffer :: "DOMException + heap \<Rightarrow> nat \<Rightarrow> DOMException + pixel list" where
  "output_buffer r c = (case r of Inl err \<Rightarrow> Inl err | Inr h \<Rightarrow> Inr (data (h c)))"

text \<open>
  A heap where every canvas has the same two pixels.
\<close>

definition example_heap :: heap where
  "example_heap =
     (\<lambda>_. \<lparr>width = 2, height = 1, context2d = True, origin_clean = True,
            data = [(200, 100, 50, 255), (128, 128, 128, 7)]\<rparr>)"

section \<open>Frame selection (PhotoEditor.tsx, the two \<^verbatim>\<open>photos.map\<close> blocks)\<close>

text \<open>
  \<^verbatim>\<open>const frameIndex = displayFrameIndex === null ? burst.length - 1
                       : Math.min(displayFrameIndex, burst.length - 1);
  const src = burst[frameIndex];\<close>

  \<^verbatim>\<open>displayFrameIndex\<close> is only ever set to \<^verbatim>\<open>null\<close>, to \<^verbatim>\<open>0\<close> and to the loop
  counters of the GIF export, so it is a \<open>nat option\<close>. \<^verbatim>\<open>burst.length - 1\<close> is \<open>-1\<close>
  for an empty burst, so the computed index is an \<open>int\<close>; reading a JavaScript array out
  of range gives \<^verbatim>\<open>undefined\<close>, which is \<open>None\<close> here.
\<close>

definition frameIndex :: "nat option \<Rightarrow> burst \<Rightarrow> int" where
  "frameIndex displayFrameIndex burst =
     (case displayFrameIndex of
        None \<Rightarrow> int (length burst) - 1
      | Some d \<Rightarrow> min (int d) (int (length burst) - 1))"

definition js_index :: "'a list \<Rightarrow> int \<Rightarrow> 'a option" where
  "js_index xs i = (if 0 \<le> i \<and> i < int (length xs) then Some (xs ! nat i) else None)"

definition src :: "nat option \<Rightarrow> burst \<Rightarrow> string option" where
  "src displayFrameIndex burst = js_index burst (frameIndex displayFrameIndex burst)"

section \<open>The editor (PhotoEditor.tsx, first version in the file)\<close>

text \<open>
  A sticker is \<^verbatim>\<open>{ id: number; content: string; x: number; y: number; scale: number }\<close>.
  The fields \<^verbatim>\<open>id\<close>, \<^verbatim>\<open>x\<close> and \<^verbatim>\<open>y\<close> are named \<open>sticker_id\<close>, \<open>sticker_x\<close> and
  \<open>sticker_y\<close> here.
\<close>

record sticker =
  sticker_id :: nat
  content :: string
  sticker_x :: double
  sticker_y :: double
  scale :: double

text \<open>
  What the hidden export container shows, and so what \<^verbatim>\<open>html2canvas(exportRef.current)\<close>
  draws: the layout class, the background (border) colour, the filter burned into the
  images, one image per burst with its \<^verbatim>\<open>src\<close>, and the stickers. A rasterized canvas
  is identified with the view it was drawn from (the date in the header is left out).
\<close>

record view =
  view_layout :: LayoutType
  view_background :: string
  view_filter :: FilterType
  view_images :: "string option list"
  view_stickers :: "sticker list"

text \<open>
  The props \<^verbatim>\<open>photos\<close>, \<^verbatim>\<open>layout\<close>, \<^verbatim>\<open>filter\<close> (here \<open>filter_id\<close>) and the state
  of the component: \<^verbatim>\<open>borderColorState\<close>, \<^verbatim>\<open>stickers\<close>, \<^verbatim>\<open>isExporting\<close>,
  \<^verbatim>\<open>displayFrameIndex\<close> and the map behind \<^verbatim>\<open>frameCacheRef\<close>. Its keys are the strings
  \<^verbatim>\<open>`${frameIndex}-${filter}-${borderColorState}`\<close>: decimal digits, a dash, a filter name
  without a dash, a dash and the colour, so a key is read back as the triple it was made
  from, and the triple is the key here. Progress reporting (\<^verbatim>\<open>gifProgress\<close>) and the
  preview scale are not modelled.

  \<open>PhotoEditor\<close> is the state at mount.
\<close>

record editor =
  photos :: "burst list"
  layout :: LayoutType
  filter_id :: FilterType
  borderColorState :: string
  stickers :: "sticker list"
  isExporting :: bool
  displayFrameIndex :: "nat option"
  frameCache :: "nat \<times> FilterType \<times> string \<rightharpoonup> view"

definition PhotoEditor :: "burst list \<Rightarrow> LayoutType \<Rightarrow> FilterType \<Rightarrow> editor" where
  "PhotoEditor ps l f =
     \<lparr>photos = ps, layout = l, filter_id = f, borderColorState = ''#ffffff'', stickers = [],
      isExporting = False, displayFrameIndex = None, frameCache = Map.empty\<rparr>"

text \<open>
  The mutators, each ending in \<^verbatim>\<open>frameCacheRef.current.clear()\<close>. \<^verbatim>\<open>addSticker\<close> takes
  the value of \<^verbatim>\<open>Date.now()\<close> as \<open>now\<close>. \<^verbatim>\<open>resizeSticker\<close> computes
  \<^verbatim>\<open>Math.max(0.5, Math.min(3, s.scale + delta))\<close>.
\<close>

definition setBorderColor :: "string \<Rightarrow> editor \<Rightarrow> editor" where
  "setBorderColor color st = st\<lparr>borderColorState := color, frameCache := Map.empty\<rparr>"

definition addSticker :: "nat \<Rightarrow> string \<Rightarrow> editor \<Rightarrow> editor" where
  "addSticker now c st =
     st\<lparr>stickers := stickers st @
            [\<lparr>sticker_id = now, content = c, sticker_x = Fin 0, sticker_y = Fin 0, scale = Fin 1\<rparr>],
        frameCache := Map.empty\<rparr>"

definition removeSticker :: "nat \<Rightarrow> editor \<Rightarrow> editor" where
  "removeSticker i st =
     st\<lparr>stickers := filter (\<lambda>s. sticker_id s \<noteq> i) (stickers st), frameCache := Map.empty\<rparr>"

definition newScale :: "double \<Rightarrow> double \<Rightarrow> double" where
  "newScale s delta = Math_max (Fin (1 / 2)) (Math_min (Fin 3) (fadd s delta))"

definition resizeSticker :: "nat \<Rightarrow> double \<Rightarrow> editor \<Rightarrow> editor" where
  "resizeSticker i delta st =
     st\<lparr>stickers := map (\<lambda>s. if sticker_id s = i then s\<lparr>scale := newScale (scale s) delta\<rparr> else s)
                        (stickers st),
        frameCache := Map.empty\<rparr>"

definition updateStickerPosition :: "nat \<Rightarrow> double \<Rightarrow> double \<Rightarrow> editor \<Rightarrow> editor" where
  "updateStickerPosition i x y st =
     st\<lparr>stickers := map (\<lambda>s. if sticker_id s = i then s\<lparr>sticker_x := x, sticker_y := y\<rparr> else s)
                        (stickers st),
        frameCache := Map.empty\<rparr>"

text \<open>
  A sequence of clicks on the resize buttons of the sticker with identity \<open>i\<close>, each
  with its \<^verbatim>\<open>delta\<close> (the buttons pass \<^verbatim>\<open>0.1\<close> and \<^verbatim>\<open>-0.1\<close>), and an editor with
  one sticker as \<^verbatim>\<open>addSticker\<close> creates it.
\<close>

definition resize_all :: "nat \<Rightarrow> double list \<Rightarrow> editor \<Rightarrow> editor" where
  "resize_all i deltas st = foldl (\<lambda>s delta. resizeSticker i delta s) st deltas"

definition sticker_editor :: editor where
  "sticker_editor = addSticker 1700000000000 ''*'' (PhotoEditor [[''a'', ''b'']] Layout4Square Normal)"

text \<open>
  The export container: one image per burst, selected by \<^verbatim>\<open>displayFrameIndex\<close>.
  \<open>frame_at st i\<close> is the composite with the Render Frame Index at position \<open>i\<close>.
\<close>

definition render :: "editor \<Rightarrow> view" where
  "render st =
     \<lparr>view_layout = layout st, view_background = borderColorState st, view_filter = filter_id st,
      view_images = map (src (displayFrameIndex st)) (photos st), view_stickers = stickers st\<rparr>"

definition frame_at :: "editor \<Rightarrow> nat \<Rightarrow> view" where
  "frame_at st i = render (st\<lparr>displayFrameIndex := Some i\<rparr>)"

section \<open>GIF export (PhotoEditor.tsx, \<^verbatim>\<open>downloadGif\<close>, first version in the file)\<close>

text \<open>
  What the export depends on outside the component: whether \<^verbatim>\<open>exportRef.current\<close> is
  set, whether \<^verbatim>\<open>import("gif.js")\<close> resolves, and whether \<^verbatim>\<open>html2canvas\<close> draws a
  view or throws. The run of an export carries the editor, the frames passed to
  \<^verbatim>\<open>gif.addFrame\<close> with their delay, and the canvases that \<^verbatim>\<open>html2canvas\<close> drew.
\<close>

record env =
  exportRef_current :: bool
  gif_module :: bool
  html2canvas_ok :: "view \<Rightarrow> bool"

record export_state =
  editor_of :: editor
  gif_frames :: "(view \<times> nat) list"
  rasterized :: "view list"

text \<open>
  \<^verbatim>\<open>const burstLength = photos[0]?.length || 1;\<close>
\<close>

definition burstLength :: "burst list \<Rightarrow> nat" where
  "burstLength ps = (case ps of [] \<Rightarrow> 1 | b # _ \<Rightarrow> if length b = 0 then 1 else length b)"

text \<open>
  \<^verbatim>\<open>getFrame\<close>: a cache hit returns a copy of the cached canvas; a miss sets
  \<^verbatim>\<open>displayFrameIndex\<close>, rasterizes and caches. \<open>Inl\<close> is a throw of \<^verbatim>\<open>html2canvas\<close>,
  with the state reached.
\<close>

definition getFrame :: "env \<Rightarrow> export_state \<Rightarrow> nat \<Rightarrow> export_state + view \<times> export_state" where
  "getFrame e es idx =
     (let st = editor_of es; cacheKey = (idx, filter_id st, borderColorState st)
      in case frameCache st cacheKey of
           Some cached \<Rightarrow> Inr (cached, es)
         | None \<Rightarrow>
             let st1 = st\<lparr>displayFrameIndex := Some idx\<rparr>
             in if html2canvas_ok e (render st1)
                then Inr (render st1,
                          es\<lparr>editor_of := st1\<lparr>frameCache := (frameCache st1)(cacheKey \<mapsto> render st1)\<rparr>,
                             rasterized := rasterized es @ [render st1]\<rparr>)
                else Inl (es\<lparr>editor_of := st1\<rparr>))"

text \<open>
  \<^verbatim>\<open>for (let loop = 0; loop < loops; loop++) {
    for (let i = 0; i < burstLength; i++) {
      const canvas = await getFrame(i);
      gif.addFrame(canvas, { delay: 100 }); ... } }\<close>
\<close>

function frames_loop :: "env \<Rightarrow> nat \<Rightarrow> nat \<Rightarrow> export_state \<Rightarrow> export_state + export_state" where
  "frames_loop e n i es =
     (if i < n
      then (case getFrame e es i of
              Inl failed \<Rightarrow> Inl failed
            | Inr (canvas, es') \<Rightarrow>
                frames_loop e n (Suc i) (es'\<lparr>gif_frames := gif_frames es' @ [(canvas, 100)]\<rparr>))
      else Inr es)"
  by pat_completeness auto
termination
  by (relation "measure (\<lambda>(e, n, i, es). n - i)") auto

function loops_loop :: "env \<Rightarrow> nat \<Rightarrow> nat \<Rightarrow> nat \<Rightarrow> export_state \<Rightarrow> export_state + export_state" where
  "loops_loop e loops n loop es =
     (if loop < loops
      then (case frames_loop e n 0 es of
              Inl failed \<Rightarrow> Inl failed
            | Inr es' \<Rightarrow> loops_loop e loops n (Suc loop) es')
      else Inr es)"
  by pat_completeness auto
termination
  by (relation "measure (\<lambda>(e, loops, n, loop, es). loops - loop)") auto

text \<open>
  \<^verbatim>\<open>downloadGif\<close>: the editor left behind, the frames added to the encoder, the canvases
  drawn and the file handed to the browser when the encoder finishes (\<open>None\<close> when the
  export returns early or throws). The catch block is \<open>export_failed\<close>. A completed export
  is followed to the \<^verbatim>\<open>finished\<close> event of the encoder and its clean-up.
\<close>

record export_result =
  final :: editor
  encoder :: "(view \<times> nat) list"
  captured :: "view list"
  gif_file :: "(view \<times> nat) list option"

definition export_failed :: "export_state \<Rightarrow> export_result" where
  "export_failed es =
     \<lparr>final = (editor_of es)\<lparr>isExporting := False, displayFrameIndex := None\<rparr>,
      encoder = gif_frames es, captured = rasterized es, gif_file = None\<rparr>"

definition downloadGif :: "env \<Rightarrow> editor \<Rightarrow> export_result" where
  "downloadGif e st =
     (if \<not> exportRef_current e then \<lparr>final = st, encoder = [], captured = [], gif_file = None\<rparr>
      else if \<not> gif_module e
      then export_failed \<lparr>editor_of = st\<lparr>isExporting := True\<rparr>, gif_frames = [], rasterized = []\<rparr>
      else if burstLength (photos st) \<le> 1
      then \<lparr>final = st\<lparr>isExporting := False\<rparr>, encoder = [], captured = [], gif_file = None\<rparr>
      else if \<not> html2canvas_ok e (frame_at st 0)
      then export_failed \<lparr>editor_of = st\<lparr>isExporting := True, displayFrameIndex := Some 0\<rparr>,
                          gif_frames = [], rasterized = []\<rparr>
      else (case loops_loop e 3 (burstLength (photos st)) 0
                   \<lparr>editor_of = st\<lparr>isExporting := True, displayFrameIndex := Some 0\<rparr>,
                    gif_frames = [], rasterized = [frame_at st 0]\<rparr> of
              Inl failed \<Rightarrow> export_failed failed
            | Inr es \<Rightarrow>
                \<lparr>final = (editor_of es)\<lparr>displayFrameIndex := None, isExporting := False\<rparr>,
                 encoder = gif_frames es, captured = rasterized es, gif_file = Some (gif_frames es)\<rparr>))"

text \<open>
  The spec's "shortest burst length", from its words.
\<close>

definition spec_shortest_burst_length :: "burst list \<Rightarrow> nat" where
  "spec_shortest_burst_length ps = Min (set (map length ps))"

text \<open>
  Concrete inputs: an environment where everything works, a Photo Set whose bursts
  differ in length, and one of bursts with a single frame.
\<close>

definition example_env :: env where
  "example_env = \<lparr>exportRef_current = True, gif_module = True, html2canvas_ok = (\<lambda>_. True)\<rparr>"

definition uneven_editor :: editor where
  "uneven_editor = PhotoEditor [[''a'', ''b'', ''c''], [''d'', ''e'']] Layout4Square Normal"


text \<open>
  The frame cache agrees with the editor when every entry under the current filter and
  border colour is the composite at its position; the mutators keep this by clearing the
  cache. \<open>export_inv\<close> is the invariant of the export loops.
\<close>

declare frames_loop.simps [simp del] loops_loop.simps [simp del]

definition cache_consistent :: "editor \<Rightarrow> bool" where
  "cache_consistent st =
     (\<forall>i c. frameCache st (i, filter_id st, borderColorState st) = Some c \<longrightarrow> c = frame_at st i)"

definition export_inv :: "editor \<Rightarrow> export_state \<Rightarrow> bool" where
  "export_inv st es =
     (photos (editor_of es) = photos st \<and> layout (editor_of es) = layout st
      \<and> filter_id (editor_of es) = filter_id st
      \<and> borderColorState (editor_of es) = borderColorState st
      \<and> stickers (editor_of es) = stickers st
      \<and> isExporting (editor_of es)
      \<and> cache_consistent (editor_of es))"

definition single_frame_editor :: editor where
  "single_frame_editor = PhotoEditor [[''a''], [''b''], [''c''], [''d'']] Layout4Square Normal"

section \<open>Layouts (the booth page, \<^verbatim>\<open>LAYOUT_CONFIG\<close>)\<close>

text \<open>
  \<^verbatim>\<open>const LAYOUT_CONFIG: Record<LayoutType, { count: number }>\<close>; the page renders
  \<^verbatim>\<open><Camera photoCount={LAYOUT_CONFIG[selectedLayout].count} onComplete={...} />\<close>.
\<close>

definition LAYOUT_CONFIG :: "LayoutType \<Rightarrow> nat" where
  "LAYOUT_CONFIG l =
     (case l of Layout4Diagonal \<Rightarrow> 4 | Layout3Diagonal \<Rightarrow> 3 | Layout4Square \<Rightarrow> 4 | Layout6Grid \<Rightarrow> 6)"

section \<open>Capture: the Camera that takes a burst after the countdown (src/unnamed/part_002)\<close>

text \<open>
  \<^verbatim>\<open>webcamRef.current?.getScreenshot()\<close> gives a data URL or \<^verbatim>\<open>null\<close>. A frame is
  kept under \<^verbatim>\<open>if (imageSrc && imageSrc.startsWith("data:image/"))\<close>.

  The state of the component: \<^verbatim>\<open>photos\<close>, \<^verbatim>\<open>isCapturing\<close>, \<^verbatim>\<open>countdown\<close>,
  \<^verbatim>\<open>filter\<close>; the \<^verbatim>\<open>currentCount\<close> of the interval timer while one runs
  (\<open>cam_timer\<close>); whether \<^verbatim>\<open>captureBurst\<close> is under way; and the calls of
  \<^verbatim>\<open>onComplete\<close> so far, with their arguments. The flash is not modelled.
\<close>

type_synonym screenshot = "string option"

record camera =
  cam_photos :: "burst list"
  cam_isCapturing :: bool
  cam_countdown :: "int option"
  cam_filter :: FilterType
  cam_timer :: "int option"
  cam_bursting :: bool
  cam_completed :: "(burst list \<times> FilterType) list"

definition Camera :: camera where
  "Camera =
     \<lparr>cam_photos = [], cam_isCapturing = False, cam_countdown = None, cam_filter = Normal,
      cam_timer = None, cam_bursting = False, cam_completed = []\<rparr>"

text \<open>
  The two effects, in the order of the source. The first calls
  \<^verbatim>\<open>onComplete(photos, filter)\<close> once \<^verbatim>\<open>photos.length >= photoCount\<close> while capturing.
  The second clears the timer of the previous run and, while capturing with shots
  missing, starts the countdown. They run after a change of \<^verbatim>\<open>isCapturing\<close> or
  \<^verbatim>\<open>photos\<close>; when the first one fires the second finds its condition false whichever
  value of \<^verbatim>\<open>isCapturing\<close> it sees.
\<close>

definition completion_effect :: "nat \<Rightarrow> camera \<Rightarrow> camera" where
  "completion_effect photoCount st =
     (if photoCount \<le> length (cam_photos st) \<and> cam_isCapturing st
      then st\<lparr>cam_isCapturing := False,
              cam_completed := cam_completed st @ [(cam_photos st, cam_filter st)]\<rparr>
      else st)"

definition countdown_effect :: "nat \<Rightarrow> int \<Rightarrow> camera \<Rightarrow> camera" where
  "countdown_effect photoCount timerDuration st =
     (if cam_isCapturing st \<and> length (cam_photos st) < photoCount
      then st\<lparr>cam_countdown := Some timerDuration, cam_timer := Some timerDuration\<rparr>
      else st\<lparr>cam_timer := None\<rparr>)"

definition run_effects :: "nat \<Rightarrow> int \<Rightarrow> camera \<Rightarrow> camera" where
  "run_effects photoCount timerDuration st =
     countdown_effect photoCount timerDuration (completion_effect photoCount st)"

text \<open>
  \<^verbatim>\<open>captureBurst\<close>: thirty calls of \<^verbatim>\<open>getScreenshot\<close> (\<open>shots i\<close> is the result of
  call \<open>i\<close>), and \<^verbatim>\<open>if (burst.length > 0) { ... setPhotos((prev) => [...prev, burst]); }\<close>.
\<close>

definition push_frame :: "screenshot \<Rightarrow> burst \<Rightarrow> burst" where
  "push_frame imageSrc b =
     (case imageSrc of
        None \<Rightarrow> b
      | Some s \<Rightarrow> if s \<noteq> [] \<and> startsWith s ''data:image/'' then b @ [s] else b)"

function burst_loop :: "(nat \<Rightarrow> screenshot) \<Rightarrow> nat \<Rightarrow> burst \<Rightarrow> burst" where
  "burst_loop shots i b =
     (if i < 30 then burst_loop shots (Suc i) (push_frame (shots i) b) else b)"
  by pat_completeness auto
termination
  by (relation "measure (\<lambda>(shots, i, b). 30 - i)") auto

definition captureBurst :: "nat \<Rightarrow> int \<Rightarrow> (nat \<Rightarrow> screenshot) \<Rightarrow> camera \<Rightarrow> camera" where
  "captureBurst photoCount timerDuration shots st =
     (let b = burst_loop shots 0 []
      in if 0 < length b
         then run_effects photoCount timerDuration (st\<lparr>cam_photos := cam_photos st @ [b]\<rparr>)
         else st)"

text \<open>
  What happens to the component: a click on Start Capture or on a filter button (both
  are rendered only under \<^verbatim>\<open>!isCapturing && photos.length === 0\<close>), a tick of the
  countdown interval, and the end of a \<^verbatim>\<open>captureBurst\<close> with the screenshots it got.
\<close>

datatype camera_event = StartSession | SetFilter FilterType | Tick | BurstDone "nat \<Rightarrow> screenshot"

fun camera_step :: "nat \<Rightarrow> int \<Rightarrow> camera \<Rightarrow> camera_event \<Rightarrow> camera" where
  "camera_step photoCount timerDuration st StartSession =
     (if \<not> cam_isCapturing st \<and> cam_photos st = []
      then run_effects photoCount timerDuration (st\<lparr>cam_photos := [], cam_isCapturing := True\<rparr>)
      else st)"
| "camera_step photoCount timerDuration st (SetFilter f) =
     (if \<not> cam_isCapturing st \<and> cam_photos st = [] then st\<lparr>cam_filter := f\<rparr> else st)"
| "camera_step photoCount timerDuration st Tick =
     (case cam_timer st of
        None \<Rightarrow> st
      | Some currentCount \<Rightarrow>
          if currentCount - 1 \<le> 0
          then st\<lparr>cam_countdown := Some (currentCount - 1), cam_timer := None, cam_bursting := True\<rparr>
          else st\<lparr>cam_countdown := Some (currentCount - 1), cam_timer := Some (currentCount - 1)\<rparr>)"
| "camera_step photoCount timerDuration st (BurstDone shots) =
     (if cam_bursting st
      then captureBurst photoCount timerDuration shots (st\<lparr>cam_bursting := False\<rparr>)
      else st)"

definition camera_run :: "nat \<Rightarrow> int \<Rightarrow> camera_event list \<Rightarrow> camera" where
  "camera_run photoCount timerDuration events = foldl (camera_step photoCount timerDuration) Camera events"

text \<open>
  Concrete runs: a camera that always delivers a frame, one that never does, a shot
  with the default countdown of 3, and sessions.
\<close>

definition good_camera :: "nat \<Rightarrow> screenshot" where
  "good_camera i = Some ''data:image/jpeg;base64,AAAA''"

definition dead_camera :: "nat \<Rightarrow> screenshot" where
  "dead_camera i = None"

definition one_shot :: "(nat \<Rightarrow> screenshot) \<Rightarrow> camera_event list" where
  "one_shot shots = [Tick, Tick, Tick, BurstDone shots]"

definition session_3_diagonal :: "camera_event list" where
  "session_3_diagonal =
     [SetFilter BW, StartSession] @ one_shot good_camera @ one_shot good_camera @ one_shot good_camera"

declare burst_loop.simps [simp del]

text \<open>
  The invariant of the component.
\<close>

definition camera_inv :: "nat \<Rightarrow> camera \<Rightarrow> bool" where
  "camera_inv photoCount st =
     ((if cam_isCapturing st
       then length (cam_photos st) < photoCount \<and> cam_completed st = []
       else (cam_photos st = [] \<and> cam_completed st = [])
            \<or> (length (cam_photos st) = photoCount
                \<and> cam_completed st = [(cam_photos st, cam_filter st)]))
      \<and> (cam_timer st = None \<or> cam_isCapturing st)
      \<and> (cam_bursting st = False \<or> cam_isCapturing st))"

definition good_session :: "LayoutType \<Rightarrow> camera_event list" where
  "good_session l = StartSession # concat (replicate (LAYOUT_CONFIG l) (one_shot good_camera))"

section \<open>Capture: the Camera that samples during the countdown (src/unnamed/part_003)\<close>

text \<open>
  This version keeps the frames in \<^verbatim>\<open>burstRef\<close>. One effect starts two interval timers,
  \<^verbatim>\<open>captureTimer\<close> (100 ms: a sample, kept if it is a frame) and \<^verbatim>\<open>countdownTimer\<close>
  (1000 ms); \<open>pre_currentCount\<close> is the \<^verbatim>\<open>currentCount\<close> of the countdown while the
  timers run. When the count reaches zero it clears both timers, takes the final snap,
  \<^verbatim>\<open>if (finalSnap && finalSnap.startsWith("data:image/")) { burstRef.current.push(finalSnap); }\<close>,
  and commits \<^verbatim>\<open>setPhotos((prev) => [...prev, [...burstRef.current]])\<close>. A tick carries
  the screenshot that \<^verbatim>\<open>getScreenshot\<close> returns at that moment. This version has no
  call of \<^verbatim>\<open>onComplete\<close>.
\<close>

record precapture =
  pre_photos :: "burst list"
  pre_isCapturing :: bool
  pre_countdown :: "int option"
  pre_filter :: FilterType
  pre_burstRef :: burst
  pre_currentCount :: "int option"

definition Camera_precapture :: precapture where
  "Camera_precapture =
     \<lparr>pre_photos = [], pre_isCapturing = False, pre_countdown = None, pre_filter = Normal,
      pre_burstRef = [], pre_currentCount = None\<rparr>"

definition precapture_effect :: "nat \<Rightarrow> int \<Rightarrow> precapture \<Rightarrow> precapture" where
  "precapture_effect photoCount timerDuration st =
     (if pre_isCapturing st \<and> length (pre_photos st) < photoCount
      then st\<lparr>pre_countdown := Some timerDuration, pre_currentCount := Some timerDuration,
              pre_burstRef := []\<rparr>
      else st\<lparr>pre_currentCount := None\<rparr>)"

datatype precapture_event =
  PreStartSession | PreSetFilter FilterType | CaptureTick screenshot | CountdownTick screenshot

fun precapture_step :: "nat \<Rightarrow> int \<Rightarrow> precapture \<Rightarrow> precapture_event \<Rightarrow> precapture" where
  "precapture_step photoCount timerDuration st PreStartSession =
     (if \<not> pre_isCapturing st \<and> pre_photos st = []
      then precapture_effect photoCount timerDuration (st\<lparr>pre_photos := [], pre_isCapturing := True\<rparr>)
      else st)"
| "precapture_step photoCount timerDuration st (PreSetFilter f) =
     (if \<not> pre_isCapturing st \<and> pre_photos st = [] then st\<lparr>pre_filter := f\<rparr> else st)"
| "precapture_step photoCount timerDuration st (CaptureTick imageSrc) =
     (case pre_currentCount st of
        None \<Rightarrow> st
      | Some currentCount \<Rightarrow> st\<lparr>pre_burstRef := push_frame imageSrc (pre_burstRef st)\<rparr>)"
| "precapture_step photoCount timerDuration st (CountdownTick finalSnap) =
     (case pre_currentCount st of
        None \<Rightarrow> st
      | Some currentCount \<Rightarrow>
          if currentCount - 1 \<le> 0
          then precapture_effect photoCount timerDuration
                 (st\<lparr>pre_countdown := Some (currentCount - 1), pre_currentCount := None,
                     pre_burstRef := push_frame finalSnap (pre_burstRef st),
                     pre_photos := pre_photos st @ [push_frame finalSnap (pre_burstRef st)]\<rparr>)
          else st\<lparr>pre_countdown := Some (currentCount - 1), pre_currentCount := Some (currentCount - 1)\<rparr>)"

definition precapture_run :: "nat \<Rightarrow> int \<Rightarrow> precapture_event list \<Rightarrow> precapture" where
  "precapture_run photoCount timerDuration events =
     foldl (precapture_step photoCount timerDuration) Camera_precapture events"

text \<open>
  A session in which the camera never delivers a frame: every sample and the final snap
  get \<^verbatim>\<open>null\<close>.
\<close>

definition camera_not_ready :: "precapture_event list" where
  "camera_not_ready =
     [PreStartSession, CaptureTick None, CaptureTick None, CountdownTick None,
      CaptureTick None, CountdownTick None, CaptureTick None, CountdownTick None]"

section \<open>The operations of the editor and the booth page\<close>

text \<open>
  \<^verbatim>\<open>downloadImage\<close> (PhotoEditor.tsx, first version): without \<^verbatim>\<open>exportRef.current\<close> it
  returns at once; otherwise it sets \<^verbatim>\<open>isExporting\<close>, sets \<^verbatim>\<open>displayFrameIndex\<close> to
  \<^verbatim>\<open>null\<close>, rasterizes, and \<^verbatim>\<open>canvas.toBlob\<close> hands over the file, or no blob
  (\<open>blob\<close> tells which); the callback and the catch block both end in
  \<^verbatim>\<open>setIsExporting(false)\<close>. The result is the editor left behind and the file, if any.
\<close>

datatype image_format = PNG | JPG

definition downloadImage ::
  "env \<Rightarrow> bool \<Rightarrow> image_format \<Rightarrow> editor \<Rightarrow> editor \<times> (image_format \<times> view) option" where
  "downloadImage e blob fmt st =
     (if \<not> exportRef_current e then (st, None)
      else if html2canvas_ok e (render (st\<lparr>isExporting := True, displayFrameIndex := None\<rparr>)) \<and> blob
      then (st\<lparr>isExporting := False, displayFrameIndex := None\<rparr>,
            Some (fmt, render (st\<lparr>isExporting := True, displayFrameIndex := None\<rparr>)))
      else (st\<lparr>isExporting := False, displayFrameIndex := None\<rparr>, None))"

text \<open>
  Everything the controls of the editor can do to its state: the border colour buttons,
  the sticker buttons and the controls of a sticker, and the three export buttons. None
  of them touches the props. (Start Over reloads the page, see below.)
\<close>

datatype editor_action =
    SetBorderColor string
  | AddSticker nat string
  | RemoveSticker nat
  | ResizeSticker nat double
  | UpdateStickerPosition nat double double
  | DownloadImage env bool image_format
  | DownloadGif env

fun editor_step :: "editor_action \<Rightarrow> editor \<Rightarrow> editor" where
  "editor_step (SetBorderColor color) st = setBorderColor color st"
| "editor_step (AddSticker now c) st = addSticker now c st"
| "editor_step (RemoveSticker i) st = removeSticker i st"
| "editor_step (ResizeSticker i delta) st = resizeSticker i delta st"
| "editor_step (UpdateStickerPosition i px py) st = updateStickerPosition i px py st"
| "editor_step (DownloadImage e blob fmt) st = fst (downloadImage e blob fmt st)"
| "editor_step (DownloadGif e) st = final (downloadGif e st)"

text \<open>
  The booth page (\<^verbatim>\<open>BoothPage\<close>): its state \<^verbatim>\<open>step\<close>, \<^verbatim>\<open>selectedLayout\<close>,
  \<^verbatim>\<open>capturedPhotos\<close>, \<^verbatim>\<open>selectedFilter\<close>, and the editor while it is mounted.
  \<^verbatim>\<open>handleLayoutSelect\<close> is called by the layout selector, shown in step "layout";
  \<^verbatim>\<open>handleCaptureComplete\<close> is the \<^verbatim>\<open>onComplete\<close> of the Camera, shown in step "camera"
  with a layout selected: it stores photos and filter and goes to step "edit", where
  \<^verbatim>\<open><PhotoEditor photos={capturedPhotos} layout={selectedLayout} filter={selectedFilter} .../>\<close>
  mounts. \<^verbatim>\<open>onReset\<close> is \<^verbatim>\<open>window.location.reload()\<close>. This is the only place where
  \<^verbatim>\<open>setSelectedFilter\<close> is called.
\<close>

datatype Step = StepLayout | StepCamera | StepEdit

record page =
  step :: Step
  selectedLayout :: "LayoutType option"
  capturedPhotos :: "burst list"
  selectedFilter :: FilterType
  mounted_editor :: "editor option"

definition BoothPage :: page where
  "BoothPage =
     \<lparr>step = StepLayout, selectedLayout = None, capturedPhotos = [], selectedFilter = Normal,
      mounted_editor = None\<rparr>"

datatype page_event =
    LayoutSelect LayoutType
  | CaptureComplete "burst list" FilterType
  | EditorAction editor_action
  | Reset

fun page_step :: "page \<Rightarrow> page_event \<Rightarrow> page" where
  "page_step p (LayoutSelect l) =
     (if step p = StepLayout then p\<lparr>selectedLayout := Some l, step := StepCamera\<rparr> else p)"
| "page_step p (CaptureComplete ps f) =
     (if step p = StepCamera
      then (case selectedLayout p of
              None \<Rightarrow> p
            | Some l \<Rightarrow>
                p\<lparr>capturedPhotos := ps, selectedFilter := f, step := StepEdit,
                  mounted_editor := Some (PhotoEditor ps l f)\<rparr>)
      else p)"
| "page_step p (EditorAction a) =
     (case mounted_editor p of None \<Rightarrow> p | Some ed \<Rightarrow> p\<lparr>mounted_editor := Some (editor_step a ed)\<rparr>)"
| "page_step p Reset = (case mounted_editor p of None \<Rightarrow> p | Some ed \<Rightarrow> BoothPage)"

text \<open>
  The props of the mounted editor are the state of the page.
\<close>

definition props_agree :: "page \<Rightarrow> bool" where
  "props_agree p =
     (case mounted_editor p of
        None \<Rightarrow> step p \<noteq> StepEdit
      | Some ed \<Rightarrow>
          step p = StepEdit \<and> photos ed = capturedPhotos p \<and> selectedLayout p = Some (layout ed)
          \<and> filter_id ed = selectedFilter p)"

text \<open>
  Concrete inputs: the page after a layout was chosen, and the editor after an export
  of the uneven Photo Set, whose cache is filled.
\<close>

definition camera_page :: page where
  "camera_page = page_step BoothPage (LayoutSelect Layout4Square)"

text \<open>
  What the composite shows apart from the frame position.
\<close>

definition look :: "editor \<Rightarrow> burst list \<times> LayoutType \<times> FilterType \<times> string \<times> sticker list" where
  "look st = (photos st, layout st, filter_id st, borderColorState st, stickers st)"

definition exported_editor :: editor where
  "exported_editor = final (downloadGif example_env uneven_editor)"

section \<open>Theorems\<close>

subsection \<open>Filter Function\<close>

lemma fmul_commute: "fmul a b = fmul b a"
  by (cases a; cases b) (simp_all add: mult.commute)

lemma spec_luminance_eq: "spec_luminance r g b = luminance r g b"
  by (simp add: spec_luminance_def luminance_def fmul_commute)

lemma parseFloat_1_2: "parseFloat ''1.2'' = decimal 12 1"
  by (simp add: parseFloat_def unsigned_literal_def is_digit_def is_space_def digits_value_def
      pow10_def exponent_part_def decimal_def Let_def)

lemma bw_grayscale_stage: "grayscale_stage (filterValue BW) d = map grayscale_pixel d"
  by (simp add: grayscale_stage_def filterValue_def getFilterStyle_def includes_str_def)

lemma bw_contrast_stage:
  "contrast_stage (filterValue BW) d = map (contrast_pixel (contrast_factor (decimal 12 1))) d"
proof -
  have "match_call ''contrast'' (filterValue BW) = Some ''1.2''"
    by (simp add: filterValue_def getFilterStyle_def match_at_def)
  moreover have "includes_str (filterValue BW) ''contrast''"
    by (simp add: filterValue_def getFilterStyle_def includes_str_def)
  ultimately show ?thesis by (simp add: contrast_stage_def parseFloat_1_2)
qed

lemma bw_sepia_stage: "sepia_stage (filterValue BW) d = d"
  by (simp add: sepia_stage_def filterValue_def getFilterStyle_def includes_str_def)

lemma bw_brightness_stage: "brightness_stage (filterValue BW) d = d"
  by (simp add: brightness_stage_def filterValue_def getFilterStyle_def includes_str_def)

lemma bw_saturate_stage: "saturate_stage (filterValue BW) d = d"
  by (simp add: saturate_stage_def filterValue_def getFilterStyle_def includes_str_def)

lemma bw_pixel_eq:
  "contrast_pixel (contrast_factor (decimal 12 1)) (grayscale_pixel p) = spec_bw_pixel p"
  by (cases p)
     (simp add: contrast_pixel_def grayscale_pixel_def spec_bw_pixel_def contrast_channel_def
        spec_contrast_def spec_clamp_def spec_factor_def contrast_factor_def spec_luminance_eq Let_def)

lemma bw_stages:
  "saturate_stage (filterValue BW) (brightness_stage (filterValue BW) (sepia_stage (filterValue BW)
     (contrast_stage (filterValue BW) (grayscale_stage (filterValue BW) d)))) = map spec_bw_pixel d"
  by (simp only: bw_grayscale_stage bw_contrast_stage bw_sepia_stage bw_brightness_stage
      bw_saturate_stage map_map o_def bw_pixel_eq)

text \<open>
  C5. On a canvas that has a 2d context, pixels, and is origin-clean, the transform for
  the filter bw computes for every pixel the luminance 0.299R + 0.587G + 0.114B,
  writes it to the three colour channels, and then applies the contrast transform with
  C = 1.2, factor = (259*(C*255+255)) / (255*(259-C*255)) and
  clamp(factor*(in-128)+128, 0, 255) on each of them; alpha is unchanged and no other
  stage (sepia, brightness, saturation) runs.
\<close>

theorem bw_filter_transform:
  assumes "context2d (h c)" and "0 < width (h c)" and "0 < height (h c)" and "origin_clean (h c)"
  shows "filterFunction h c BW = Inr (h(c := (h c)\<lparr>data := map spec_bw_pixel (data (h c))\<rparr>))"
proof -
  have "filterValue BW \<noteq> []" by (simp add: filterValue_def getFilterStyle_def)
  then show ?thesis
    using assms by (simp add: filterFunction_def applyFilterToCanvas_def bw_stages)
qed

text \<open>
  With C = 1.2 the product C*255 = 306 exceeds 259, so the factor is negative
  (about -12.12): the transform inverts around 128.
\<close>

lemma bw_factor_negative:
  "spec_factor (decimal 12 1) = Fin (- (6824869860839651 / 562949953421312))"
  by code_simp

theorem bw_filter_transform_witness:
  "context2d (example_heap 0) \<and> 0 < width (example_heap 0) \<and> 0 < height (example_heap 0)
   \<and> origin_clean (example_heap 0)
   \<and> output_buffer (filterFunction example_heap 0 BW) 0
       = Inr [spec_bw_pixel (200, 100, 50, 255), spec_bw_pixel (128, 128, 128, 7)]"
proof -
  have h: "context2d (example_heap 0)" "0 < width (example_heap 0)" "0 < height (example_heap 0)"
    "origin_clean (example_heap 0)"
    by (simp_all add: example_heap_def)
  have d: "data (example_heap 0) = [(200, 100, 50, 255), (128, 128, 128, 7)]"
    by (simp add: example_heap_def)
  from bw_filter_transform [of example_heap 0, OF h] d
  have "output_buffer (filterFunction example_heap 0 BW) 0
       = Inr [spec_bw_pixel (200, 100, 50, 255), spec_bw_pixel (128, 128, 128, 7)]"
    by (simp add: output_buffer_def)
  with h show ?thesis by simp
qed

lemma applyFilterToCanvas_output:
  "output_buffer (applyFilterToCanvas h c fv) c =
     (if fv = [] \<or> \<not> context2d (h c) then Inr (data (h c))
      else if width (h c) = 0 \<or> height (h c) = 0 then Inl IndexSizeError
      else if \<not> origin_clean (h c) then Inl SecurityError
      else Inr (saturate_stage fv (brightness_stage fv (sepia_stage fv
               (contrast_stage fv (grayscale_stage fv (data (h c))))))))"
  by (simp add: applyFilterToCanvas_def output_buffer_def)

lemma applyFilterToCanvas_other:
  "applyFilterToCanvas h c fv = Inr h' \<Longrightarrow> c' \<noteq> c \<Longrightarrow> h' c' = h c'"
  by (auto simp: applyFilterToCanvas_def split: if_splits)

lemma filter_function_output_cong:
  assumes "data (h1 c1) = data (h2 c2)" and "context2d (h1 c1) = context2d (h2 c2)"
    and "origin_clean (h1 c1) = origin_clean (h2 c2)"
    and "width (h1 c1) = width (h2 c2)" and "height (h1 c1) = height (h2 c2)"
  shows "output_buffer (filterFunction h1 c1 f) c1 = output_buffer (filterFunction h2 c2 f) c2"
  using assms by (simp add: filterFunction_def applyFilterToCanvas_output)

text \<open>
  C9. The Filter Function is deterministic: two invocations with the same filter id on
  canvases that hold the same pixel buffer (and agree on having a context, on their
  size and on being origin-clean), in whatever heaps, leave identical output buffers,
  or throw the same exception.
\<close>

theorem filter_function_deterministic:
  assumes "data (h1 c1) = data (h2 c2)" and "context2d (h1 c1) = context2d (h2 c2)"
    and "origin_clean (h1 c1) = origin_clean (h2 c2)"
    and "width (h1 c1) = width (h2 c2)" and "height (h1 c1) = height (h2 c2)"
  shows "output_buffer (filterFunction h1 c1 f) c1 = output_buffer (filterFunction h2 c2 f) c2"
  using assms by (rule filter_function_output_cong)

theorem filter_function_deterministic_witness:
  "data (example_heap 0) = data (example_heap 1) \<and> context2d (example_heap 0) = context2d (example_heap 1)
   \<and> origin_clean (example_heap 0) = origin_clean (example_heap 1)
   \<and> width (example_heap 0) = width (example_heap 1) \<and> height (example_heap 0) = height (example_heap 1)
   \<and> output_buffer (filterFunction example_heap 0 Vintage) 0
       = output_buffer (filterFunction example_heap 1 Vintage) 1"
proof -
  have h: "data (example_heap 0) = data (example_heap 1)"
    "context2d (example_heap 0) = context2d (example_heap 1)"
    "origin_clean (example_heap 0) = origin_clean (example_heap 1)"
    "width (example_heap 0) = width (example_heap 1)" "height (example_heap 0) = height (example_heap 1)"
    by (simp_all add: example_heap_def)
  from filter_function_deterministic [of example_heap 0 example_heap 1, OF h, of Vintage] h show ?thesis by simp
qed

text \<open>
  In particular a second invocation in the heap the first one left, on another canvas
  with the same input, gives the output of the first.
\<close>

lemma filter_function_second_invocation:
  assumes "a \<noteq> b" and "h b = h a" and "filterFunction h a f = Inr h'"
  shows "output_buffer (filterFunction h' b f) b = Inr (data (h' a))"
proof -
  have "h' b = h a"
    using assms applyFilterToCanvas_other [of h a "filterValue f" h' b]
    by (simp add: filterFunction_def)
  then have "output_buffer (filterFunction h' b f) b = output_buffer (filterFunction h a f) a"
    by (intro filter_function_output_cong) simp_all
  with assms(3) show ?thesis by (simp add: output_buffer_def)
qed

subsection \<open>Frame selection\<close>

lemma frameIndex_in_bounds:
  "burst \<noteq> [] \<Longrightarrow> 0 \<le> frameIndex d burst \<and> frameIndex d burst < int (length burst)"
  by (cases burst) (auto simp: frameIndex_def split: option.splits)

lemma src_null_last: "burst \<noteq> [] \<Longrightarrow> src None burst = Some (last burst)"
  by (simp add: src_def js_index_def frameIndex_def last_conv_nth nat_diff_distrib')

text \<open>
  C7. For every non-empty burst, the frame selected when \<^verbatim>\<open>displayFrameIndex\<close> is
  \<^verbatim>\<open>null\<close> is the frame selected when it is \<^verbatim>\<open>burst.length - 1\<close>, and both are the
  last frame of the burst.
\<close>

theorem null_selects_same_as_last_index:
  assumes "burst \<noteq> []"
  shows "src None burst = src (Some (length burst - 1)) burst
         \<and> src None burst = Some (last burst)"
proof -
  from assms have "int (length burst - 1) = int (length burst) - 1"
    by (cases burst) simp_all
  then have "frameIndex (Some (length burst - 1)) burst = frameIndex None burst"
    by (simp add: frameIndex_def)
  then show ?thesis
    using assms by (simp add: src_def src_null_last [unfolded src_def])
qed

theorem null_selects_same_as_last_index_witness:
  "[''a'', ''b'', ''c''] \<noteq> ([] :: burst)
   \<and> src None [''a'', ''b'', ''c''] = src (Some (length [''a'', ''b'', ''c''] - 1)) [''a'', ''b'', ''c'']
   \<and> src None [''a'', ''b'', ''c''] = Some ''c''"
  using null_selects_same_as_last_index [of "[''a'', ''b'', ''c'']"] by auto

text \<open>
  C10. For every non-empty burst and every non-null Render Frame Index \<open>i\<close>, also one at
  or beyond the length of the burst, the displayed frame index is
  \<open>min i (burst.length - 1)\<close>, it lies inside the burst, and the frame read is the
  element at that position: rendering never reads past the end of a burst.
\<close>

theorem frame_selection_in_bounds:
  assumes "burst \<noteq> []"
  shows "frameIndex (Some i) burst = min (int i) (int (length burst) - 1)
         \<and> 0 \<le> frameIndex (Some i) burst
         \<and> frameIndex (Some i) burst < int (length burst)
         \<and> src (Some i) burst = Some (burst ! min i (length burst - 1))"
proof -
  have fi: "frameIndex (Some i) burst = min (int i) (int (length burst) - 1)"
    by (simp add: frameIndex_def)
  have bounds: "0 \<le> frameIndex (Some i) burst \<and> frameIndex (Some i) burst < int (length burst)"
    using assms by (rule frameIndex_in_bounds)
  from assms have "nat (min (int i) (int (length burst) - 1)) = min i (length burst - 1)"
    by (cases burst) (simp_all add: min_def)
  with bounds fi have "src (Some i) burst = Some (burst ! min i (length burst - 1))"
    by (simp add: src_def js_index_def)
  with fi bounds show ?thesis by simp
qed

theorem frame_selection_in_bounds_witness:
  "[''d'', ''e''] \<noteq> ([] :: burst)
   \<and> frameIndex (Some 2) [''d'', ''e''] = 1
   \<and> src (Some 2) [''d'', ''e''] = Some ''e''"
  using frame_selection_in_bounds [of "[''d'', ''e'']" 2] by simp

text \<open>
  So, over a Photo Set without an empty burst, every image of the composite at every
  position has a frame, also at the positions that the export reaches beyond the end of
  a burst shorter than the first.
\<close>

lemma frame_at_images_defined:
  assumes "[] \<notin> set (photos st)"
  shows "None \<notin> set (view_images (frame_at st i))"
proof -
  have "src (Some i) b \<noteq> None" if "b \<in> set (photos st)" for b
  proof -
    from that assms have "b \<noteq> []" by auto
    then have "0 \<le> frameIndex (Some i) b \<and> frameIndex (Some i) b < int (length b)"
      by (rule frameIndex_in_bounds)
    then show ?thesis by (simp add: src_def js_index_def)
  qed
  then show ?thesis by (fastforce simp: frame_at_def render_def)
qed

subsection \<open>GIF export\<close>

lemma frame_at_cong:
  "photos a = photos b \<Longrightarrow> layout a = layout b \<Longrightarrow> filter_id a = filter_id b \<Longrightarrow>
   borderColorState a = borderColorState b \<Longrightarrow> stickers a = stickers b \<Longrightarrow>
   frame_at a i = frame_at b i"
  by (simp add: frame_at_def render_def)

lemma getFrame_ok:
  assumes ok: "\<forall>v. html2canvas_ok e v" and inv: "export_inv st es"
  shows "\<exists>es'. getFrame e es i = Inr (frame_at st i, es') \<and> export_inv st es'
              \<and> gif_frames es' = gif_frames es"
proof (cases "frameCache (editor_of es) (i, filter_id (editor_of es), borderColorState (editor_of es))")
  case None
  let ?st1 = "(editor_of es)\<lparr>displayFrameIndex := Some i\<rparr>"
  have r: "render ?st1 = frame_at st i"
    using inv by (simp add: export_inv_def frame_at_def render_def)
  have "getFrame e es i =
          Inr (frame_at st i,
               es\<lparr>editor_of := ?st1\<lparr>frameCache := (frameCache ?st1)
                      ((i, filter_id (editor_of es), borderColorState (editor_of es)) \<mapsto> frame_at st i)\<rparr>,
                  rasterized := rasterized es @ [frame_at st i]\<rparr>)"
    using None ok r by (simp add: getFrame_def Let_def)
  moreover have "export_inv st
      (es\<lparr>editor_of := ?st1\<lparr>frameCache := (frameCache ?st1)
             ((i, filter_id (editor_of es), borderColorState (editor_of es)) \<mapsto> frame_at st i)\<rparr>,
         rasterized := rasterized es @ [frame_at st i]\<rparr>)"
    using inv by (auto simp: export_inv_def cache_consistent_def frame_at_def render_def)
  ultimately show ?thesis by simp
next
  case (Some cached)
  with inv have "cached = frame_at st i"
    by (auto simp: export_inv_def cache_consistent_def frame_at_def render_def)
  with Some inv show ?thesis by (simp add: getFrame_def Let_def)
qed

lemma frames_loop_ok:
  shows "\<forall>v. html2canvas_ok e v \<Longrightarrow> export_inv st es \<Longrightarrow> i \<le> n \<Longrightarrow>
         \<exists>es'. frames_loop e n i es = Inr es' \<and> export_inv st es'
               \<and> gif_frames es' = gif_frames es @ map (\<lambda>j. (frame_at st j, 100)) [i..<n]"
proof (induction e n i es rule: frames_loop.induct)
  case (1 e n i es)
  show ?case
  proof (cases "i < n")
    case False
    then have "frames_loop e n i es = Inr es"
      by (simp add: frames_loop.simps [of e n i es])
    with False "1.prems" show ?thesis by simp
  next
    case True
    note ok = "1.prems"(1)
    from getFrame_ok [OF ok "1.prems"(2), of i] obtain es1 where
      g: "getFrame e es i = Inr (frame_at st i, es1)" and inv1: "export_inv st es1"
      and f1: "gif_frames es1 = gif_frames es" by blast
    let ?es2 = "es1\<lparr>gif_frames := gif_frames es1 @ [(frame_at st i, 100)]\<rparr>"
    have inv2: "export_inv st ?es2" using inv1 by (simp add: export_inv_def)
    from "1.IH" [OF True g refl ok inv2] True
    obtain es' where r: "frames_loop e n (Suc i) ?es2 = Inr es'" and inv': "export_inv st es'"
      and f': "gif_frames es' = gif_frames ?es2 @ map (\<lambda>j. (frame_at st j, 100)) [Suc i..<n]"
      by auto
    have "frames_loop e n i es = Inr es'"
      using True g r by (simp add: frames_loop.simps [of e n i es])
    moreover have "gif_frames es' = gif_frames es @ map (\<lambda>j. (frame_at st j, 100)) [i..<n]"
      using f' f1 True by (simp add: upt_conv_Cons)
    ultimately show ?thesis using inv' by blast
  qed
qed

lemma loops_loop_ok:
  shows "\<forall>v. html2canvas_ok e v \<Longrightarrow> export_inv st es \<Longrightarrow> loop \<le> loops \<Longrightarrow>
         \<exists>es'. loops_loop e loops n loop es = Inr es' \<and> export_inv st es'
               \<and> gif_frames es' = gif_frames es
                    @ map (\<lambda>j. (frame_at st j, 100)) (concat (replicate (loops - loop) [0..<n]))"
proof (induction e loops n loop es rule: loops_loop.induct)
  case (1 e loops n loop es)
  show ?case
  proof (cases "loop < loops")
    case False
    then have "loops_loop e loops n loop es = Inr es"
      by (simp add: loops_loop.simps [of e loops n loop es])
    with False "1.prems" show ?thesis by simp
  next
    case True
    note ok = "1.prems"(1)
    from frames_loop_ok [OF ok "1.prems"(2), of 0 n] obtain es1 where
      g: "frames_loop e n 0 es = Inr es1" and inv1: "export_inv st es1"
      and f1: "gif_frames es1 = gif_frames es @ map (\<lambda>j. (frame_at st j, 100)) [0..<n]" by auto
    from "1.IH" [OF True g ok inv1] True
    obtain es' where r: "loops_loop e loops n (Suc loop) es1 = Inr es'" and inv': "export_inv st es'"
      and f': "gif_frames es' = gif_frames es1
                 @ map (\<lambda>j. (frame_at st j, 100)) (concat (replicate (loops - Suc loop) [0..<n]))"
      by auto
    have "loops_loop e loops n loop es = Inr es'"
      using True g r by (simp add: loops_loop.simps [of e loops n loop es])
    moreover from True have "loops - loop = Suc (loops - Suc loop)" by simp
    then have "gif_frames es' = gif_frames es
                 @ map (\<lambda>j. (frame_at st j, 100)) (concat (replicate (loops - loop) [0..<n]))"
      using f' f1 by simp
    ultimately show ?thesis using inv' by blast
  qed
qed

text \<open>
  C1, as amended. An export that is not refused (the first burst has at least two
  frames, everything outside the component works, the cache agrees with the editor) adds
  to the encoder the composites at the positions 0 to (length of the FIRST burst - 1),
  in this order, three times in a row, each with a delay of 100: loop 0, then loop 1,
  then loop 2, never interleaved. The file holds these frames, and their number is three
  times the length of the first burst. A burst shorter than the first one shows its last
  frame at the positions beyond its end.
\<close>

theorem gif_frames_first_burst_order:
  assumes "exportRef_current e" and "gif_module e" and "\<forall>v. html2canvas_ok e v"
    and "cache_consistent st" and "photos st = b # bs" and "1 < length b"
  shows "encoder (downloadGif e st)
           = map (\<lambda>i. (frame_at st i, 100)) ([0..<length b] @ [0..<length b] @ [0..<length b])
         \<and> gif_file (downloadGif e st) = Some (encoder (downloadGif e st))
         \<and> length (encoder (downloadGif e st)) = 3 * length b"
proof -
  let ?st2 = "st\<lparr>isExporting := True, displayFrameIndex := Some 0\<rparr>"
  let ?es = "\<lparr>editor_of = ?st2, gif_frames = [], rasterized = [frame_at st 0]\<rparr>"
  have bl: "burstLength (photos st) = length b"
    using assms(5,6) by (auto simp: burstLength_def)
  have inv: "export_inv st ?es"
    using assms(4) by (simp add: export_inv_def cache_consistent_def frame_at_def render_def)
  from loops_loop_ok [OF assms(3) inv, of 0 3 "length b"] obtain es' where
    r: "loops_loop e 3 (length b) 0 ?es = Inr es'"
    and f: "gif_frames es' = map (\<lambda>j. (frame_at st j, 100)) (concat (replicate 3 [0..<length b]))"
    by auto
  have c: "concat (replicate 3 [0..<length b]) = [0..<length b] @ [0..<length b] @ [0..<length b]"
    by (simp add: numeral_3_eq_3)
  have d: "downloadGif e st =
        \<lparr>final = (editor_of es')\<lparr>displayFrameIndex := None, isExporting := False\<rparr>,
         encoder = gif_frames es', captured = rasterized es', gif_file = Some (gif_frames es')\<rparr>"
    using assms(1,2,3,6) bl r by (simp add: downloadGif_def)
  show ?thesis unfolding d using f c by simp
qed


text \<open>
  With bursts of three and of two frames, nine frames are added; the second burst shows
  its last frame \<open>e\<close> at position 2.
\<close>

theorem gif_frames_first_burst_order_witness:
  "exportRef_current example_env \<and> gif_module example_env \<and> (\<forall>v. html2canvas_ok example_env v)
   \<and> cache_consistent uneven_editor
   \<and> photos uneven_editor = [''a'', ''b'', ''c''] # [[''d'', ''e'']]
   \<and> 1 < length [''a'', ''b'', ''c'']
   \<and> map (\<lambda>(v, d). (view_images v, d)) (encoder (downloadGif example_env uneven_editor))
       = [([Some ''a'', Some ''d''], 100), ([Some ''b'', Some ''e''], 100), ([Some ''c'', Some ''e''], 100),
          ([Some ''a'', Some ''d''], 100), ([Some ''b'', Some ''e''], 100), ([Some ''c'', Some ''e''], 100),
          ([Some ''a'', Some ''d''], 100), ([Some ''b'', Some ''e''], 100), ([Some ''c'', Some ''e''], 100)]"
proof -
  have h: "exportRef_current example_env" "gif_module example_env" "\<forall>v. html2canvas_ok example_env v"
    by (simp_all add: example_env_def)
  have c: "cache_consistent uneven_editor"
    by (simp add: cache_consistent_def uneven_editor_def PhotoEditor_def)
  have p: "photos uneven_editor = [''a'', ''b'', ''c''] # [[''d'', ''e'']]"
    by (simp add: uneven_editor_def PhotoEditor_def)
  have l: "1 < length [''a'', ''b'', ''c'']" by simp
  have u: "[0..<length [''a'', ''b'', ''c'']] = [0, Suc 0, Suc (Suc 0)]" by (simp add: upt_rec)
  from gif_frames_first_burst_order [OF h c p l] u
  have "encoder (downloadGif example_env uneven_editor)
          = map (\<lambda>i. (frame_at uneven_editor i, 100))
              [0, Suc 0, Suc (Suc 0), 0, Suc 0, Suc (Suc 0), 0, Suc 0, Suc (Suc 0)]"
    by simp
  then have "map (\<lambda>(v, d). (view_images v, d)) (encoder (downloadGif example_env uneven_editor))
       = [([Some ''a'', Some ''d''], 100), ([Some ''b'', Some ''e''], 100), ([Some ''c'', Some ''e''], 100),
          ([Some ''a'', Some ''d''], 100), ([Some ''b'', Some ''e''], 100), ([Some ''c'', Some ''e''], 100),
          ([Some ''a'', Some ''d''], 100), ([Some ''b'', Some ''e''], 100), ([Some ''c'', Some ''e''], 100)]"
    by (simp add: frame_at_def render_def uneven_editor_def PhotoEditor_def src_def js_index_def
        frameIndex_def)
  with h c p l show ?thesis by simp
qed

text \<open>
  C1 as stated fails on the same Photo Set: the shortest burst has two frames, so the
  claim gives six frames, and the export adds nine.
\<close>

theorem gif_frames_shortest_burst_counterexample:
  "length (encoder (downloadGif example_env uneven_editor)) = 9
   \<and> 3 * spec_shortest_burst_length (photos uneven_editor) = 6"
proof -
  have "length (encoder (downloadGif example_env uneven_editor)) = 9"
    by code_simp
  moreover have "spec_shortest_burst_length (photos uneven_editor) = 2"
    by (simp add: spec_shortest_burst_length_def uneven_editor_def PhotoEditor_def)
  ultimately show ?thesis by simp
qed

lemma burstLength_le_1_iff:
  "burstLength ps \<le> 1 \<longleftrightarrow> ps = [] \<or> length (hd ps) \<le> 1"
  by (cases ps) (auto simp: burstLength_def)

text \<open>
  C3. When the burst length (\<^verbatim>\<open>photos[0]?.length || 1\<close>) is at most 1, an export
  requested while none is running (the GIF button is disabled during an export) produces
  no file, adds no frame to the encoder, rasterizes nothing, and leaves \<^verbatim>\<open>isExporting\<close>
  false.
\<close>

theorem gif_export_refused:
  assumes "burstLength (photos st) \<le> 1" and "\<not> isExporting st"
  shows "gif_file (downloadGif e st) = None \<and> encoder (downloadGif e st) = []
         \<and> captured (downloadGif e st) = [] \<and> \<not> isExporting (final (downloadGif e st))"
  using assms by (simp add: downloadGif_def export_failed_def)

theorem gif_export_refused_witness:
  "burstLength (photos single_frame_editor) \<le> 1 \<and> \<not> isExporting single_frame_editor
   \<and> gif_file (downloadGif example_env single_frame_editor) = None
   \<and> encoder (downloadGif example_env single_frame_editor) = []
   \<and> captured (downloadGif example_env single_frame_editor) = []
   \<and> \<not> isExporting (final (downloadGif example_env single_frame_editor))"
proof -
  have h: "burstLength (photos single_frame_editor) \<le> 1" "\<not> isExporting single_frame_editor"
    by (simp_all add: single_frame_editor_def PhotoEditor_def burstLength_def)
  from gif_export_refused [OF h, of example_env] h show ?thesis by simp
qed

subsection \<open>Frame cache\<close>

text \<open>
  An export, completed or failed, changes nothing of what the composite shows.
\<close>

lemma getFrame_look:
  "getFrame e es i = Inl x \<Longrightarrow> look (editor_of x) = look (editor_of es)"
  "getFrame e es i = Inr (c, y) \<Longrightarrow> look (editor_of y) = look (editor_of es)"
  by (auto simp: getFrame_def Let_def look_def split: option.splits if_splits)

lemma frames_loop_look:
  "frames_loop e n i es = r \<Longrightarrow>
   look (case r of Inl x \<Rightarrow> editor_of x | Inr x \<Rightarrow> editor_of x) = look (editor_of es)"
proof (induction e n i es arbitrary: r rule: frames_loop.induct)
  case (1 e n i es)
  show ?case
  proof (cases "i < n")
    case False
    with "1.prems" show ?thesis by (auto simp: frames_loop.simps [of e n i es])
  next
    case True
    show ?thesis
    proof (cases "getFrame e es i")
      case (Inl x)
      with True "1.prems" getFrame_look(1) [OF Inl] show ?thesis
        by (auto simp: frames_loop.simps [of e n i es])
    next
      case (Inr cy)
      obtain c y where cy: "cy = (c, y)" by (cases cy)
      let ?y = "y\<lparr>gif_frames := gif_frames y @ [(c, 100)]\<rparr>"
      from True Inr cy "1.prems" have r: "frames_loop e n (Suc i) ?y = r"
        by (simp add: frames_loop.simps [of e n i es])
      from "1.IH" [OF True Inr [unfolded cy] refl r]
      have "look (case r of Inl x \<Rightarrow> editor_of x | Inr x \<Rightarrow> editor_of x) = look (editor_of ?y)" .
      with getFrame_look(2) [OF Inr [unfolded cy]] show ?thesis by simp
    qed
  qed
qed

lemma loops_loop_look:
  "loops_loop e loops n loop es = r \<Longrightarrow>
   look (case r of Inl x \<Rightarrow> editor_of x | Inr x \<Rightarrow> editor_of x) = look (editor_of es)"
proof (induction e loops n loop es arbitrary: r rule: loops_loop.induct)
  case (1 e loops n loop es)
  show ?case
  proof (cases "loop < loops")
    case False
    with "1.prems" show ?thesis by (auto simp: loops_loop.simps [of e loops n loop es])
  next
    case True
    show ?thesis
    proof (cases "frames_loop e n 0 es")
      case (Inl x)
      with True "1.prems" frames_loop_look [OF Inl] show ?thesis
        by (auto simp: loops_loop.simps [of e loops n loop es])
    next
      case (Inr y)
      from True Inr "1.prems" have r: "loops_loop e loops n (Suc loop) y = r"
        by (simp add: loops_loop.simps [of e loops n loop es])
      from "1.IH" [OF True Inr r] frames_loop_look [OF Inr] show ?thesis by simp
    qed
  qed
qed

lemma downloadGif_look: "look (final (downloadGif e st)) = look st"
proof -
  let ?es = "\<lparr>editor_of = st\<lparr>isExporting := True, displayFrameIndex := Some 0\<rparr>,
              gif_frames = [], rasterized = [frame_at st 0]\<rparr>"
  have l: "look (case loops_loop e 3 (burstLength (photos st)) 0 ?es of
                   Inl x \<Rightarrow> editor_of x | Inr x \<Rightarrow> editor_of x) = look st"
    using loops_loop_look [OF refl, of e 3 "burstLength (photos st)" 0 ?es]
    by (simp add: look_def)
  show ?thesis
  proof (cases "loops_loop e 3 (burstLength (photos st)) 0 ?es")
    case (Inl x)
    with l show ?thesis by (simp add: downloadGif_def export_failed_def look_def)
  next
    case (Inr y)
    with l show ?thesis by (simp add: downloadGif_def export_failed_def look_def)
  qed
qed

lemma editor_step_props:
  "photos (editor_step a st) = photos st \<and> layout (editor_step a st) = layout st
   \<and> filter_id (editor_step a st) = filter_id st"
proof (cases a)
  case (DownloadGif e)
  with downloadGif_look [of e st] show ?thesis by (simp add: look_def)
qed (simp_all add: setBorderColor_def addSticker_def removeSticker_def resizeSticker_def
       updateStickerPosition_def downloadImage_def)

lemma editor_step_cache:
  assumes "borderColorState (editor_step a st) \<noteq> borderColorState st
             \<or> stickers (editor_step a st) \<noteq> stickers st"
  shows "frameCache (editor_step a st) = Map.empty"
proof (cases a)
  case (DownloadGif e)
  with assms downloadGif_look [of e st] show ?thesis by (simp add: look_def)
next
  case (DownloadImage e blob fmt)
  with assms show ?thesis by (simp add: downloadImage_def split: if_splits)
qed (simp_all add: setBorderColor_def addSticker_def removeSticker_def resizeSticker_def
       updateStickerPosition_def)

lemma page_filter_change:
  assumes "selectedFilter (page_step p ev) \<noteq> selectedFilter p"
    and "mounted_editor (page_step p ev) = Some ed"
  shows "frameCache ed = Map.empty \<and> filter_id ed = selectedFilter (page_step p ev)"
proof (cases ev)
  case (CaptureComplete ps f)
  with assms show ?thesis
    by (auto simp: PhotoEditor_def split: if_splits option.splits)
next
  case Reset
  with assms show ?thesis by (auto simp: BoothPage_def split: option.splits)
qed (use assms in \<open>auto split: if_splits option.splits\<close>)

text \<open>
  In every state the page reaches, the mounted editor has the page's photos, layout and
  filter as props.
\<close>

lemma props_agree_step: "props_agree p \<Longrightarrow> props_agree (page_step p ev)"
proof (cases ev)
  case (EditorAction a)
  assume "props_agree p"
  with EditorAction editor_step_props show ?thesis
    by (auto simp: props_agree_def split: option.splits)
qed (auto simp: props_agree_def BoothPage_def PhotoEditor_def split: option.splits if_splits)

lemma props_agree_run: "props_agree (foldl page_step BoothPage evs)"
  by (induction evs rule: rev_induct) (simp_all add: props_agree_step, simp add: props_agree_def BoothPage_def)

text \<open>
  C6. After every visual-affecting state change the frame cache is empty, so every
  lookup misses and the next rasterization draws anew. Changing the border colour and
  every sticker mutation (add, remove, resize, reposition) clear the cache; more
  generally, whatever operation of the editor changes the border colour or the stickers
  leaves the cache empty. No operation of the mounted editor changes the filter; the
  filter changes only when the page receives a completed capture, and the editor that
  then mounts with the new filter has an empty cache.
\<close>

theorem visual_change_empties_frame_cache:
  "frameCache (setBorderColor color st) = Map.empty
   \<and> frameCache (addSticker now c st) = Map.empty
   \<and> frameCache (removeSticker i st) = Map.empty
   \<and> frameCache (resizeSticker i delta st) = Map.empty
   \<and> frameCache (updateStickerPosition i px py st) = Map.empty
   \<and> filter_id (editor_step a st) = filter_id st
   \<and> (borderColorState (editor_step a st) \<noteq> borderColorState st
        \<or> stickers (editor_step a st) \<noteq> stickers st
       \<longrightarrow> frameCache (editor_step a st) = Map.empty)
   \<and> (selectedFilter (page_step p ev) \<noteq> selectedFilter p
       \<longrightarrow> (case mounted_editor (page_step p ev) of
              None \<Rightarrow> True
            | Some ed \<Rightarrow> frameCache ed = Map.empty \<and> filter_id ed = selectedFilter (page_step p ev)))"
proof -
  have m: "frameCache (setBorderColor color st) = Map.empty
     \<and> frameCache (addSticker now c st) = Map.empty
     \<and> frameCache (removeSticker i st) = Map.empty
     \<and> frameCache (resizeSticker i delta st) = Map.empty
     \<and> frameCache (updateStickerPosition i px py st) = Map.empty"
    by (simp add: setBorderColor_def addSticker_def removeSticker_def resizeSticker_def
        updateStickerPosition_def)
  have f: "filter_id (editor_step a st) = filter_id st"
    using editor_step_props by blast
  have v: "borderColorState (editor_step a st) \<noteq> borderColorState st
        \<or> stickers (editor_step a st) \<noteq> stickers st
       \<longrightarrow> frameCache (editor_step a st) = Map.empty"
    using editor_step_cache by blast
  have g: "selectedFilter (page_step p ev) \<noteq> selectedFilter p
       \<longrightarrow> (case mounted_editor (page_step p ev) of
              None \<Rightarrow> True
            | Some ed \<Rightarrow> frameCache ed = Map.empty \<and> filter_id ed = selectedFilter (page_step p ev))"
    using page_filter_change [of p ev] by (auto split: option.splits)
  from m f v g show ?thesis by blast
qed


theorem visual_change_empties_frame_cache_witness:
  "frameCache exported_editor (0, Normal, ''#ffffff'') = Some (frame_at uneven_editor 0)
   \<and> borderColorState (editor_step (SetBorderColor ''#000000'') exported_editor)
       \<noteq> borderColorState exported_editor
   \<and> frameCache (editor_step (SetBorderColor ''#000000'') exported_editor) = Map.empty
   \<and> selectedFilter (page_step camera_page (CaptureComplete [[''a'', ''b'']] BW))
       \<noteq> selectedFilter camera_page
   \<and> mounted_editor (page_step camera_page (CaptureComplete [[''a'', ''b'']] BW))
       = Some (PhotoEditor [[''a'', ''b'']] Layout4Square BW)
   \<and> frameCache (PhotoEditor [[''a'', ''b'']] Layout4Square BW) = Map.empty"
proof -
  note t = visual_change_empties_frame_cache
    [where a = "SetBorderColor ''#000000''" and st = exported_editor and p = camera_page
       and ev = "CaptureComplete [[''a'', ''b'']] BW"]
  have c: "frameCache exported_editor (0, Normal, ''#ffffff'') = Some (frame_at uneven_editor 0)"
    unfolding exported_editor_def by code_simp
  have "look exported_editor = look uneven_editor"
    unfolding exported_editor_def by (rule downloadGif_look)
  then have "borderColorState exported_editor = ''#ffffff''"
    by (simp add: look_def uneven_editor_def PhotoEditor_def)
  then have b: "borderColorState (editor_step (SetBorderColor ''#000000'') exported_editor)
       \<noteq> borderColorState exported_editor"
    by (simp add: setBorderColor_def)
  with t have e: "frameCache (editor_step (SetBorderColor ''#000000'') exported_editor) = Map.empty"
    by blast
  have f: "selectedFilter (page_step camera_page (CaptureComplete [[''a'', ''b'']] BW))
       \<noteq> selectedFilter camera_page"
    by (simp add: camera_page_def BoothPage_def)
  have m: "mounted_editor (page_step camera_page (CaptureComplete [[''a'', ''b'']] BW))
       = Some (PhotoEditor [[''a'', ''b'']] Layout4Square BW)"
    by (simp add: camera_page_def BoothPage_def)
  from t f m have g: "frameCache (PhotoEditor [[''a'', ''b'']] Layout4Square BW) = Map.empty"
    by simp
  from c b e f m g show ?thesis by blast
qed

text \<open>
  The agreement of the cache with the editor, which the export assumes, holds at mount,
  after every mutator, and after a completed export.
\<close>

lemma cache_consistent_after_mutation:
  "cache_consistent (PhotoEditor ps l f)"
  "cache_consistent (setBorderColor color st)"
  "cache_consistent (addSticker now c st)"
  "cache_consistent (removeSticker i st)"
  "cache_consistent (resizeSticker i delta st)"
  "cache_consistent (updateStickerPosition i px py st)"
  by (simp_all add: cache_consistent_def PhotoEditor_def setBorderColor_def addSticker_def
      removeSticker_def resizeSticker_def updateStickerPosition_def)

lemma cache_consistent_after_export:
  assumes "exportRef_current e" and "gif_module e" and "\<forall>v. html2canvas_ok e v"
    and "cache_consistent st" and "1 < burstLength (photos st)"
  shows "cache_consistent (final (downloadGif e st))"
proof -
  let ?st2 = "st\<lparr>isExporting := True, displayFrameIndex := Some 0\<rparr>"
  let ?es = "\<lparr>editor_of = ?st2, gif_frames = [], rasterized = [frame_at st 0]\<rparr>"
  have inv: "export_inv st ?es"
    using assms(4) by (simp add: export_inv_def cache_consistent_def frame_at_def render_def)
  from loops_loop_ok [OF assms(3) inv, of 0 3 "burstLength (photos st)"] obtain es' where
    r: "loops_loop e 3 (burstLength (photos st)) 0 ?es = Inr es'" and inv': "export_inv st es'"
    by auto
  have "final (downloadGif e st) = (editor_of es')\<lparr>displayFrameIndex := None, isExporting := False\<rparr>"
    using assms(1,2,3,5) r by (simp add: downloadGif_def)
  with inv' show ?thesis
    by (auto simp: export_inv_def cache_consistent_def frame_at_def render_def)
qed

subsection \<open>Sticker resize\<close>

lemma round_double_not_NaN: "round_double q \<noteq> NaN"
  by (simp add: round_double_def Let_def)

lemma newScale_range:
  assumes "delta \<noteq> NaN"
  shows "\<exists>q'. newScale (Fin q) delta = Fin q' \<and> 1 / 2 \<le> q' \<and> q' \<le> 3"
proof (cases delta)
  case (Fin r)
  show ?thesis
  proof (cases "round_double (q + r)")
    case (Fin t)
    then show ?thesis using \<open>delta = Fin r\<close> by (simp add: newScale_def)
  next
    case PInf
    then show ?thesis using \<open>delta = Fin r\<close> by (simp add: newScale_def)
  next
    case NInf
    then have "newScale (Fin q) delta = Fin (1 / 2)"
      using \<open>delta = Fin r\<close> by (simp add: newScale_def)
    then show ?thesis by (intro exI [of _ "1 / 2"]) simp
  next
    case NaN
    then show ?thesis using round_double_not_NaN by blast
  qed
next
  case PInf
  then show ?thesis by (simp add: newScale_def)
next
  case NInf
  then have "newScale (Fin q) delta = Fin (1 / 2)" by (simp add: newScale_def)
  then show ?thesis by (intro exI [of _ "1 / 2"]) simp
next
  case NaN
  with assms show ?thesis by simp
qed

lemma resizeSticker_nth:
  assumes "k < length (stickers st)"
  shows "stickers (resizeSticker i delta st) ! k =
           (if sticker_id (stickers st ! k) = i
            then (stickers st ! k)\<lparr>scale := newScale (scale (stickers st ! k)) delta\<rparr>
            else stickers st ! k)"
  using assms by (simp add: resizeSticker_def)

lemma resizeSticker_scale:
  assumes "k < length (stickers st)" and "sticker_id (stickers st ! k) = i"
  shows "scale (stickers (resizeSticker i delta st) ! k) = newScale (scale (stickers st ! k)) delta"
  using assms by (simp add: resizeSticker_nth)

lemma resizeSticker_length: "length (stickers (resizeSticker i delta st)) = length (stickers st)"
  by (simp add: resizeSticker_def)

lemma resize_all_range:
  "k < length (stickers st) \<Longrightarrow> sticker_id (stickers st ! k) = i \<Longrightarrow>
   scale (stickers st ! k) = Fin q \<Longrightarrow> 1 / 2 \<le> q \<Longrightarrow> q \<le> 3 \<Longrightarrow> NaN \<notin> set deltas \<Longrightarrow>
   \<exists>q'. scale (stickers (resize_all i deltas st) ! k) = Fin q' \<and> 1 / 2 \<le> q' \<and> q' \<le> 3"
proof (induction deltas arbitrary: st q)
  case Nil
  then show ?case by (simp add: resize_all_def)
next
  case (Cons d ds)
  from Cons.prems have d: "d \<noteq> NaN" by auto
  from newScale_range [OF d, of q] obtain q1 where
    q1: "newScale (Fin q) d = Fin q1" "1 / 2 \<le> q1" "q1 \<le> 3" by blast
  let ?st = "resizeSticker i d st"
  have len: "k < length (stickers ?st)" using Cons.prems(1) by (simp add: resizeSticker_length)
  have nth: "stickers ?st ! k = (stickers st ! k)\<lparr>scale := Fin q1\<rparr>"
    using Cons.prems(1,2,3) q1(1) by (simp add: resizeSticker_nth)
  have "\<exists>q'. scale (stickers (resize_all i ds ?st) ! k) = Fin q' \<and> 1 / 2 \<le> q' \<and> q' \<le> 3"
    using Cons.prems(2,6) q1 nth by (intro Cons.IH [OF len, of q1]) simp_all
  then show ?case by (simp add: resize_all_def)
qed

lemma newScale_at_upper: "newScale (Fin 3) (decimal 1 1) = Fin 3"
  by code_simp

lemma newScale_at_lower: "newScale (Fin (1 / 2)) (fneg (decimal 1 1)) = Fin (1 / 2)"
  by code_simp

text \<open>
  C8. For a sticker whose scale lies in \<open>[0.5, 3]\<close> (a new sticker has scale 1), after
  any sequence of resize operations with delta \<open>0.1\<close> or \<open>-0.1\<close> the scale is a finite
  number that neither exceeds 3 nor goes below 0.5; at scale 3 a further resize by
  \<open>0.1\<close> leaves the scale at 3, and at scale 0.5 a further resize by \<open>-0.1\<close> leaves it
  at 0.5.
\<close>

theorem sticker_resize_clamped:
  assumes "k < length (stickers st)" and "sticker_id (stickers st ! k) = i"
    and "scale (stickers st ! k) = Fin q" and "1 / 2 \<le> q" and "q \<le> 3"
    and "set deltas \<subseteq> {decimal 1 1, fneg (decimal 1 1)}"
  shows "(\<exists>q'. scale (stickers (resize_all i deltas st) ! k) = Fin q' \<and> 1 / 2 \<le> q' \<and> q' \<le> 3)
         \<and> (q = 3 \<longrightarrow> scale (stickers (resizeSticker i (decimal 1 1) st) ! k) = Fin 3)
         \<and> (q = 1 / 2 \<longrightarrow>
              scale (stickers (resizeSticker i (fneg (decimal 1 1)) st) ! k) = Fin (1 / 2))"
proof -
  have "decimal 1 1 \<noteq> NaN" by (simp add: decimal_def round_double_not_NaN)
  moreover from this have "fneg (decimal 1 1) \<noteq> NaN" by (cases "decimal 1 1") simp_all
  ultimately have "NaN \<notin> set deltas" using assms(6) by auto
  from resize_all_range [OF assms(1-5) this]
  have a: "\<exists>q'. scale (stickers (resize_all i deltas st) ! k) = Fin q' \<and> 1 / 2 \<le> q' \<and> q' \<le> 3" .
  note sc = resizeSticker_scale [OF assms(1,2)]
  have b: "q = 3 \<longrightarrow> scale (stickers (resizeSticker i (decimal 1 1) st) ! k) = Fin 3"
    using assms(3) newScale_at_upper by (simp only: sc) simp
  have c: "q = 1 / 2 \<longrightarrow>
              scale (stickers (resizeSticker i (fneg (decimal 1 1)) st) ! k) = Fin (1 / 2)"
  proof
    assume "q = 1 / 2"
    with assms(3) have "scale (stickers st ! k) = Fin (1 / 2)" by (simp only:)
    then show "scale (stickers (resizeSticker i (fneg (decimal 1 1)) st) ! k) = Fin (1 / 2)"
      by (simp only: sc newScale_at_lower)
  qed
  from a b c show ?thesis by blast
qed


theorem sticker_resize_clamped_witness:
  "0 < length (stickers sticker_editor) \<and> sticker_id (stickers sticker_editor ! 0) = 1700000000000
   \<and> scale (stickers sticker_editor ! 0) = Fin 1 \<and> (1 / 2 :: rat) \<le> 1 \<and> (1 :: rat) \<le> 3
   \<and> set (replicate 25 (decimal 1 1)) \<subseteq> {decimal 1 1, fneg (decimal 1 1)}
   \<and> (\<exists>q'. scale (stickers (resize_all 1700000000000 (replicate 25 (decimal 1 1)) sticker_editor) ! 0)
             = Fin q' \<and> 1 / 2 \<le> q' \<and> q' \<le> 3)"
proof -
  have h: "0 < length (stickers sticker_editor)"
    "sticker_id (stickers sticker_editor ! 0) = 1700000000000"
    "scale (stickers sticker_editor ! 0) = Fin 1"
    by (simp_all add: sticker_editor_def addSticker_def PhotoEditor_def)
  have r: "(1 / 2 :: rat) \<le> 1" "(1 :: rat) \<le> 3" by simp_all
  have d: "set (replicate 25 (decimal 1 1))
             \<subseteq> {decimal 1 1, fneg (decimal 1 1)}" by auto
  from sticker_resize_clamped [OF h r d] h r d show ?thesis by blast
qed

subsection \<open>Capture: the Photo Set of a completed session\<close>

lemma camera_inv_init: "camera_inv photoCount Camera"
  by (simp add: camera_inv_def Camera_def)

lemma camera_inv_step:
  assumes "0 < photoCount" and "camera_inv photoCount st"
  shows "camera_inv photoCount (camera_step photoCount timerDuration st ev)"
proof (cases ev)
  case StartSession
  with assms show ?thesis
    by (auto simp: camera_inv_def run_effects_def completion_effect_def countdown_effect_def
        split: if_splits)
next
  case (SetFilter f)
  with assms show ?thesis
    by (auto simp: camera_inv_def split: if_splits)
next
  case Tick
  with assms show ?thesis
    by (auto simp: camera_inv_def split: if_splits option.splits)
next
  case (BurstDone shots)
  with assms show ?thesis
    by (auto simp: camera_inv_def captureBurst_def Let_def run_effects_def completion_effect_def
        countdown_effect_def split: if_splits)
qed

lemma camera_inv_run:
  assumes "0 < photoCount"
  shows "camera_inv photoCount (camera_run photoCount timerDuration events)"
proof (induction events rule: rev_induct)
  case Nil
  show ?case by (simp add: camera_run_def camera_inv_init)
next
  case (snoc ev events)
  then show ?case
    using camera_inv_step [OF assms, of "camera_run photoCount timerDuration events" timerDuration ev]
    by (simp add: camera_run_def)
qed

lemma LAYOUT_CONFIG_pos: "0 < LAYOUT_CONFIG l"
  by (cases l) (simp_all add: LAYOUT_CONFIG_def)

text \<open>
  C4. For every layout, whenever the Camera signals completion it does so once, with
  the full Photo Set and the active filter, and the Photo Set has exactly the layout's
  required number of bursts (4-diagonal 4, 3-diagonal 3, 4-square 4, 6-grid 6).
\<close>

theorem completed_session_has_layout_count:
  assumes "(ps, f) \<in> set (cam_completed (camera_run (LAYOUT_CONFIG l) timerDuration events))"
  shows "length ps = LAYOUT_CONFIG l
         \<and> LAYOUT_CONFIG l = (case l of Layout4Diagonal \<Rightarrow> 4 | Layout3Diagonal \<Rightarrow> 3
                                       | Layout4Square \<Rightarrow> 4 | Layout6Grid \<Rightarrow> 6)
         \<and> ps = cam_photos (camera_run (LAYOUT_CONFIG l) timerDuration events)
         \<and> f = cam_filter (camera_run (LAYOUT_CONFIG l) timerDuration events)
         \<and> cam_completed (camera_run (LAYOUT_CONFIG l) timerDuration events) = [(ps, f)]"
proof -
  let ?st = "camera_run (LAYOUT_CONFIG l) timerDuration events"
  have inv: "camera_inv (LAYOUT_CONFIG l) ?st"
    using LAYOUT_CONFIG_pos by (rule camera_inv_run)
  from assms have ne: "cam_completed ?st \<noteq> []" by auto
  with inv have c: "length (cam_photos ?st) = LAYOUT_CONFIG l"
    "cam_completed ?st = [(cam_photos ?st, cam_filter ?st)]"
    by (auto simp: camera_inv_def split: if_splits)
  with assms have "ps = cam_photos ?st" "f = cam_filter ?st" by auto
  with c show ?thesis by (simp add: LAYOUT_CONFIG_def)
qed

text \<open>
  With a camera that delivers frames, the session of every layout does complete.
\<close>

lemma good_session_completes:
  "map (\<lambda>(ps, f). (map length ps, f)) (cam_completed (camera_run (LAYOUT_CONFIG l) 3 (good_session l)))
     = [(replicate (LAYOUT_CONFIG l) 30, Normal)]"
proof (cases l)
  case Layout4Diagonal
  show ?thesis unfolding Layout4Diagonal by code_simp
next
  case Layout3Diagonal
  show ?thesis unfolding Layout3Diagonal by code_simp
next
  case Layout4Square
  show ?thesis unfolding Layout4Square by code_simp
next
  case Layout6Grid
  show ?thesis unfolding Layout6Grid by code_simp
qed

theorem completed_session_has_layout_count_witness:
  "(replicate 3 (replicate 30 ''data:image/jpeg;base64,AAAA''), BW)
     \<in> set (cam_completed (camera_run (LAYOUT_CONFIG Layout3Diagonal) 3 session_3_diagonal))
   \<and> length (replicate 3 (replicate 30 ''data:image/jpeg;base64,AAAA'')) = LAYOUT_CONFIG Layout3Diagonal
   \<and> cam_completed (camera_run (LAYOUT_CONFIG Layout3Diagonal) 3 session_3_diagonal)
       = [(replicate 3 (replicate 30 ''data:image/jpeg;base64,AAAA''), BW)]"
proof -
  have "cam_completed (camera_run (LAYOUT_CONFIG Layout3Diagonal) 3 session_3_diagonal)
       = [(replicate 3 (replicate 30 ''data:image/jpeg;base64,AAAA''), BW)]"
    by code_simp
  then have m: "(replicate 3 (replicate 30 ''data:image/jpeg;base64,AAAA''), BW)
     \<in> set (cam_completed (camera_run (LAYOUT_CONFIG Layout3Diagonal) 3 session_3_diagonal))"
    by simp
  note t = completed_session_has_layout_count [OF m]
  from t have l: "length (replicate 3 (replicate 30 ''data:image/jpeg;base64,AAAA''))
                    = LAYOUT_CONFIG Layout3Diagonal"
    by (rule conjunct1)
  from t have c: "cam_completed (camera_run (LAYOUT_CONFIG Layout3Diagonal) 3 session_3_diagonal)
       = [(replicate 3 (replicate 30 ''data:image/jpeg;base64,AAAA''), BW)]"
    by blast
  from m l c show ?thesis by blast
qed

subsection \<open>Capture: length of a committed burst\<close>

text \<open>
  C2. In the version that samples during the countdown, a session in which the camera
  delivers no frame commits an empty burst: the final snap is attempted but, like every
  sample, only kept when it is a frame, and the commit is unconditional.
\<close>

theorem precapture_commits_empty_burst:
  "pre_photos (precapture_run 4 3 camera_not_ready) = [[]]"
  by (simp add: precapture_run_def camera_not_ready_def Camera_precapture_def precapture_effect_def
      push_frame_def)

text \<open>
  When the final snap is a frame the committed burst is not empty; and the version that
  takes its burst after the countdown commits only under \<^verbatim>\<open>burst.length > 0\<close>, so none
  of its bursts is empty.
\<close>

lemma precapture_final_snap_commits_frame:
  assumes "pre_currentCount st = Some c" and "c - 1 \<le> 0"
    and "s \<noteq> []" and "startsWith s ''data:image/''"
  shows "\<exists>b. pre_photos (precapture_step photoCount timerDuration st (CountdownTick (Some s)))
               = pre_photos st @ [b] \<and> b \<noteq> []"
  using assms by (simp add: precapture_effect_def push_frame_def)

lemma push_frame_not_empty: "b \<noteq> [] \<Longrightarrow> push_frame s b \<noteq> []"
  by (simp add: push_frame_def split: option.splits)

lemma captureBurst_photos:
  "cam_photos (captureBurst photoCount timerDuration shots st) = cam_photos st
   \<or> (\<exists>b. b \<noteq> [] \<and> cam_photos (captureBurst photoCount timerDuration shots st) = cam_photos st @ [b])"
  by (simp add: captureBurst_def Let_def run_effects_def completion_effect_def countdown_effect_def)

lemma camera_bursts_not_empty_step:
  assumes "[] \<notin> set (cam_photos st)"
  shows "[] \<notin> set (cam_photos (camera_step photoCount timerDuration st ev))"
proof (cases ev)
  case (BurstDone shots)
  with assms captureBurst_photos [of photoCount timerDuration shots "st\<lparr>cam_bursting := False\<rparr>"]
  show ?thesis by auto
qed (use assms in \<open>auto simp: run_effects_def completion_effect_def countdown_effect_def
       split: option.splits\<close>)

lemma camera_bursts_not_empty:
  "[] \<notin> set (cam_photos (camera_run photoCount timerDuration events))"
proof (induction events rule: rev_induct)
  case Nil
  show ?case by (simp add: camera_run_def Camera_def)
next
  case (snoc ev events)
  then show ?case
    using camera_bursts_not_empty_step [of "camera_run photoCount timerDuration events" photoCount timerDuration ev]
    by (simp add: camera_run_def)
qed

end
